theory Spec2Isabelle
  imports Complex_Main
begin

section \<open>Values of the host language\<close>

text \<open>
  The widget engine (\<^verbatim>\<open>habitat\<close>, \<^verbatim>\<open>HabitatEventBus\<close> in the full build, \<^verbatim>\<open>cc\<close>, \<^verbatim>\<open>pv\<close> in the
  lite build) is TypeScript. Its property bags hold arbitrary script values; the ones that
  markup can produce are the values of the structured-data notation, so they are modelled
  by one datatype. Numbers are kept as exact rationals plus the two infinities and NaN:
  rounding to binary64 and the sign of zero are not modelled. Strings are byte strings;
  the markup considered is ASCII.
\<close>

datatype jsnumber = Finite rat | PosInfinity | NegInfinity | NaN

datatype json =
    JNull
  | JBool bool
  | JNumber jsnumber
  | JString string
  | JArray "json list"
  | JObject "(string \<times> json) list"

text \<open>A plain object used as a property bag: own keys to values (key order plays no role
  in any operation of the engine).\<close>

type_synonym props = "string \<rightharpoonup> json"

fun typeof :: "json \<Rightarrow> string" where
  "typeof JNull = ''object''"
| "typeof (JBool b) = ''boolean''"
| "typeof (JNumber n) = ''number''"
| "typeof (JString s) = ''string''"
| "typeof (JArray xs) = ''object''"
| "typeof (JObject ms) = ''object''"

definition isNaN :: "jsnumber \<Rightarrow> bool" where
  "isNaN n \<longleftrightarrow> n = NaN"

subsection \<open>Characters and digits\<close>

definition isDigit :: "char \<Rightarrow> bool" where
  "isDigit c \<longleftrightarrow> 48 \<le> (of_char c :: nat) \<and> (of_char c :: nat) \<le> 57"

definition isLower :: "char \<Rightarrow> bool" where
  "isLower c \<longleftrightarrow> 97 \<le> (of_char c :: nat) \<and> (of_char c :: nat) \<le> 122"

definition isUpper :: "char \<Rightarrow> bool" where
  "isUpper c \<longleftrightarrow> 65 \<le> (of_char c :: nat) \<and> (of_char c :: nat) \<le> 90"

text \<open>The character class \<^verbatim>\<open>[a-z]\<close> under the flag \<^verbatim>\<open>i\<close>: the ASCII letters.\<close>

definition isLetter :: "char \<Rightarrow> bool" where
  "isLetter c \<longleftrightarrow> isLower c \<or> isUpper c"

text \<open>\<^verbatim>\<open>toUpperCase\<close> on a one-letter ASCII string.\<close>

definition toUpperCase :: "char \<Rightarrow> char" where
  "toUpperCase c = (if isLower c then char_of ((of_char c :: nat) - 32) else c)"

definition digitVal :: "char \<Rightarrow> nat" where
  "digitVal c = of_char c - 48"

definition isHexDigit :: "char \<Rightarrow> bool" where
  "isHexDigit c \<longleftrightarrow> isDigit c
     \<or> (97 \<le> (of_char c :: nat) \<and> (of_char c :: nat) \<le> 102)
     \<or> (65 \<le> (of_char c :: nat) \<and> (of_char c :: nat) \<le> 70)"

definition hexDigitVal :: "char \<Rightarrow> nat" where
  "hexDigitVal c = (if isDigit c then of_char c - 48
                    else if isLower c then of_char c - 87 else of_char c - 55)"

definition radixValue :: "nat \<Rightarrow> string \<Rightarrow> nat" where
  "radixValue b ds = foldl (\<lambda>a c. b * a + hexDigitVal c) 0 ds"

definition decimalValue :: "string \<Rightarrow> nat" where
  "decimalValue ds = foldl (\<lambda>a c. 10 * a + digitVal c) 0 ds"

fun showNat :: "nat \<Rightarrow> string" where
  "showNat n = (if n < 10 then [char_of (48 + n)]
                else showNat (n div 10) @ [char_of (48 + n mod 10)])"

text \<open>White space as \<^verbatim>\<open>String.prototype.trim\<close> and \<^verbatim>\<open>Number\<close> strip it (the ASCII part:
  TAB, LF, VT, FF, CR, SP).\<close>

definition isStrWhiteSpace :: "char \<Rightarrow> bool" where
  "isStrWhiteSpace c \<longleftrightarrow> (of_char c :: nat) \<in> {9, 10, 11, 12, 13, 32}"

definition trim :: "string \<Rightarrow> string" where
  "trim s = rev (dropWhile isStrWhiteSpace (rev (dropWhile isStrWhiteSpace s)))"

definition startsWith :: "string \<Rightarrow> string \<Rightarrow> bool" where
  "startsWith s p \<longleftrightarrow> take (length p) s = p"

subsection \<open>The conversion \<^verbatim>\<open>Number(string)\<close>\<close>

definition scale10 :: "rat \<Rightarrow> int \<Rightarrow> rat" where
  "scale10 r e = (if 0 \<le> e then r * 10 ^ nat e else r / 10 ^ nat (- e))"

text \<open>An optional exponent part: the exponent and what follows it; \<open>None\<close> when an
  exponent mark is there without digits.\<close>

definition exponentPart :: "string \<Rightarrow> (int \<times> string) option" where
  "exponentPart s =
     (case s of
        [] \<Rightarrow> Some (0, [])
      | c # r \<Rightarrow>
          if c = CHR ''e'' \<or> c = CHR ''E'' then
            (let neg = startsWith r ''-'';
                 r1 = (if startsWith r ''-'' \<or> startsWith r ''+'' then tl r else r);
                 ds = takeWhile isDigit r1
             in if ds = [] then None
                else Some (if neg then - int (decimalValue ds) else int (decimalValue ds),
                           dropWhile isDigit r1))
          else Some (0, s))"

definition strUnsignedDecimalLiteral :: "string \<Rightarrow> jsnumber" where
  "strUnsignedDecimalLiteral s =
     (if s = ''Infinity'' then PosInfinity
      else
        (let ip = takeWhile isDigit s;
             r1 = dropWhile isDigit s;
             hasDot = startsWith r1 ''.'';
             fp = (if hasDot then takeWhile isDigit (tl r1) else []);
             r2 = (if hasDot then dropWhile isDigit (tl r1) else r1)
         in if ip = [] \<and> fp = [] then NaN
            else
              (case exponentPart r2 of
                 Some (e, []) \<Rightarrow>
                   Finite (scale10 (of_nat (decimalValue ip)
                                    + of_nat (decimalValue fp) / 10 ^ length fp) e)
               | _ \<Rightarrow> NaN)))"

definition negate :: "jsnumber \<Rightarrow> jsnumber" where
  "negate n = (case n of Finite r \<Rightarrow> Finite (- r) | PosInfinity \<Rightarrow> NegInfinity
               | NegInfinity \<Rightarrow> PosInfinity | NaN \<Rightarrow> NaN)"

definition nonDecimalLiteral :: "nat \<Rightarrow> (char \<Rightarrow> bool) \<Rightarrow> string \<Rightarrow> jsnumber" where
  "nonDecimalLiteral b ok ds =
     (if ds \<noteq> [] \<and> list_all ok ds then Finite (of_nat (radixValue b ds)) else NaN)"

definition Number :: "string \<Rightarrow> jsnumber" where
  "Number v =
     (let t = trim v in
      if t = [] then Finite 0
      else if startsWith t ''0x'' \<or> startsWith t ''0X'' then
        nonDecimalLiteral 16 isHexDigit (drop 2 t)
      else if startsWith t ''0o'' \<or> startsWith t ''0O'' then
        nonDecimalLiteral 8 (\<lambda>c. isDigit c \<and> digitVal c < 8) (drop 2 t)
      else if startsWith t ''0b'' \<or> startsWith t ''0B'' then
        nonDecimalLiteral 2 (\<lambda>c. isDigit c \<and> digitVal c < 2) (drop 2 t)
      else if startsWith t ''-'' then negate (strUnsignedDecimalLiteral (tl t))
      else if startsWith t ''+'' then strUnsignedDecimalLiteral (tl t)
      else strUnsignedDecimalLiteral t)"

subsection \<open>The parser \<^verbatim>\<open>JSON.parse\<close>\<close>

text \<open>
  The parser is a scanner followed by a pushdown automaton, one step per character and
  one step per token, so both are total by structural recursion. \<open>None\<close> stands for the
  syntax error that \<^verbatim>\<open>JSON.parse\<close> raises.
\<close>

datatype token = LBrace | RBrace | LBracket | RBracket | Colon | Comma
  | Str string | Atom string

datatype scan = Idle | InAtom string | InStr string | InEsc string | InUni string string

definition isJsonWhiteSpace :: "char \<Rightarrow> bool" where
  "isJsonWhiteSpace c \<longleftrightarrow> (of_char c :: nat) \<in> {9, 10, 13, 32}"

definition punctuation :: "char \<Rightarrow> token option" where
  "punctuation c =
     (if c = CHR ''{'' then Some LBrace else if c = CHR ''}'' then Some RBrace
      else if c = CHR ''['' then Some LBracket else if c = CHR '']'' then Some RBracket
      else if c = CHR '':'' then Some Colon else if c = CHR '','' then Some Comma
      else None)"

definition unescape :: "char \<Rightarrow> char option" where
  "unescape c =
     (if c = CHR 0x22 \<or> c = CHR 0x5C \<or> c = CHR ''/'' then Some c
      else if c = CHR ''b'' then Some (CHR 0x08)
      else if c = CHR ''f'' then Some (CHR 0x0C)
      else if c = CHR ''n'' then Some (CHR 0x0A)
      else if c = CHR ''r'' then Some (CHR 0x0D)
      else if c = CHR ''t'' then Some (CHR 0x09)
      else None)"

text \<open>A \<^verbatim>\<open>\uXXXX\<close> escape yields one code unit, kept as its UTF-8 bytes.\<close>

definition utf8 :: "nat \<Rightarrow> string" where
  "utf8 n =
     (if n < 128 then [char_of n]
      else if n < 2048 then [char_of (192 + n div 64), char_of (128 + n mod 64)]
      else [char_of (224 + n div 4096), char_of (128 + (n div 64) mod 64),
            char_of (128 + n mod 64)])"

definition emit_token :: "token \<Rightarrow> token list option \<Rightarrow> token list option" where
  "emit_token t r = map_option ((#) t) r"

fun tokens :: "scan \<Rightarrow> string \<Rightarrow> token list option" where
  "tokens Idle [] = Some []"
| "tokens (InAtom a) [] = Some [Atom a]"
| "tokens (InStr a) [] = None"
| "tokens (InEsc a) [] = None"
| "tokens (InUni a h) [] = None"
| "tokens Idle (c # cs) =
     (if isJsonWhiteSpace c then tokens Idle cs
      else if c = CHR 0x22 then tokens (InStr []) cs
      else (case punctuation c of
              Some t \<Rightarrow> emit_token t (tokens Idle cs)
            | None \<Rightarrow> tokens (InAtom [c]) cs))"
| "tokens (InAtom a) (c # cs) =
     (if isJsonWhiteSpace c then emit_token (Atom a) (tokens Idle cs)
      else if c = CHR 0x22 then emit_token (Atom a) (tokens (InStr []) cs)
      else (case punctuation c of
              Some t \<Rightarrow> emit_token (Atom a) (emit_token t (tokens Idle cs))
            | None \<Rightarrow> tokens (InAtom (a @ [c])) cs))"
| "tokens (InStr a) (c # cs) =
     (if c = CHR 0x22 then emit_token (Str a) (tokens Idle cs)
      else if c = CHR 0x5C then tokens (InEsc a) cs
      else if (of_char c :: nat) < 32 then None
      else tokens (InStr (a @ [c])) cs)"
| "tokens (InEsc a) (c # cs) =
     (if c = CHR ''u'' then tokens (InUni a []) cs
      else (case unescape c of
              None \<Rightarrow> None
            | Some d \<Rightarrow> tokens (InStr (a @ [d])) cs))"
| "tokens (InUni a h) (c # cs) =
     (if \<not> isHexDigit c then None
      else if length h = 3 then tokens (InStr (a @ utf8 (radixValue 16 (h @ [c])))) cs
      else tokens (InUni a (h @ [c])) cs)"

definition jsonNumber :: "string \<Rightarrow> rat option" where
  "jsonNumber a =
     (let neg = startsWith a ''-'';
          s = (if neg then tl a else a);
          ip = takeWhile isDigit s;
          r1 = dropWhile isDigit s;
          hasDot = startsWith r1 ''.'';
          fp = (if hasDot then takeWhile isDigit (tl r1) else []);
          r2 = (if hasDot then dropWhile isDigit (tl r1) else r1)
      in if ip = [] \<or> (1 < length ip \<and> hd ip = CHR ''0'') \<or> (hasDot \<and> fp = []) then None
         else
           (case exponentPart r2 of
              Some (e, []) \<Rightarrow>
                (let m = scale10 (of_nat (decimalValue ip)
                                  + of_nat (decimalValue fp) / 10 ^ length fp) e
                 in Some (if neg then - m else m))
            | _ \<Rightarrow> None))"

definition atomValue :: "string \<Rightarrow> json option" where
  "atomValue a =
     (if a = ''true'' then Some (JBool True)
      else if a = ''false'' then Some (JBool False)
      else if a = ''null'' then Some JNull
      else map_option (\<lambda>r. JNumber (Finite r)) (jsonNumber a))"

datatype frame = InArray "json list" | InObject "(string \<times> json) list" "string option"

datatype expect = Value | ValueOrClose | KeyOrClose | Key | ColonNext | CommaOrClose
  | Done json

text \<open>A member whose key is already there replaces the value and keeps the place.\<close>

definition setMember :: "(string \<times> json) list \<Rightarrow> string \<Rightarrow> json \<Rightarrow> (string \<times> json) list" where
  "setMember ms k v =
     (if k \<in> fst ` set ms then map (\<lambda>(k', v'). if k' = k then (k, v) else (k', v')) ms
      else ms @ [(k, v)])"

text \<open>A finished value goes to the enclosing container, or ends the document.\<close>

definition reduce :: "json \<Rightarrow> frame list \<Rightarrow> (expect \<times> frame list) option" where
  "reduce v st =
     (case st of
        [] \<Rightarrow> Some (Done v, [])
      | InArray acc # st' \<Rightarrow> Some (CommaOrClose, InArray (acc @ [v]) # st')
      | InObject acc (Some k) # st' \<Rightarrow> Some (CommaOrClose, InObject (setMember acc k v) None # st')
      | InObject acc None # st' \<Rightarrow> None)"

definition startValue :: "frame list \<Rightarrow> token \<Rightarrow> (expect \<times> frame list) option" where
  "startValue st t =
     (case t of
        Atom a \<Rightarrow> (case atomValue a of None \<Rightarrow> None | Some v \<Rightarrow> reduce v st)
      | Str s \<Rightarrow> reduce (JString s) st
      | LBracket \<Rightarrow> Some (ValueOrClose, InArray [] # st)
      | LBrace \<Rightarrow> Some (KeyOrClose, InObject [] None # st)
      | _ \<Rightarrow> None)"

definition closeFrame :: "frame list \<Rightarrow> token \<Rightarrow> (expect \<times> frame list) option" where
  "closeFrame st t =
     (case (st, t) of
        (InArray acc # st', RBracket) \<Rightarrow> reduce (JArray acc) st'
      | (InObject acc None # st', RBrace) \<Rightarrow> reduce (JObject acc) st'
      | _ \<Rightarrow> None)"

definition step :: "expect \<times> frame list \<Rightarrow> token \<Rightarrow> (expect \<times> frame list) option" where
  "step cfg t =
     (case cfg of
        (Value, st) \<Rightarrow> startValue st t
      | (ValueOrClose, st) \<Rightarrow> (if t = RBracket then closeFrame st t else startValue st t)
      | (KeyOrClose, st) \<Rightarrow>
          (case (st, t) of
             (InObject acc None # st', Str k) \<Rightarrow> Some (ColonNext, InObject acc (Some k) # st')
           | _ \<Rightarrow> closeFrame st t)
      | (Key, st) \<Rightarrow>
          (case (st, t) of
             (InObject acc None # st', Str k) \<Rightarrow> Some (ColonNext, InObject acc (Some k) # st')
           | _ \<Rightarrow> None)
      | (ColonNext, st) \<Rightarrow> (if t = Colon then Some (Value, st) else None)
      | (CommaOrClose, st) \<Rightarrow>
          (if t = Comma then
             (case st of
                InArray acc # st' \<Rightarrow> Some (Value, st)
              | InObject acc k # st' \<Rightarrow> Some (Key, st)
              | [] \<Rightarrow> None)
           else closeFrame st t)
      | (Done v, st) \<Rightarrow> None)"

fun run :: "expect \<times> frame list \<Rightarrow> token list \<Rightarrow> json option" where
  "run cfg [] = (case cfg of (Done v, st) \<Rightarrow> Some v | _ \<Rightarrow> None)"
| "run cfg (t # ts) = (case step cfg t of None \<Rightarrow> None | Some cfg' \<Rightarrow> run cfg' ts)"

definition JSON_parse :: "string \<Rightarrow> json option" where
  "JSON_parse s = (case tokens Idle s of None \<Rightarrow> None | Some ts \<Rightarrow> run (Value, []) ts)"

section \<open>PropExtractor\<close>

subsection \<open>Hump conversion\<close>

text \<open>
  \<^verbatim>\<open>camelCase\<close> (full build) and \<^verbatim>\<open>cc\<close> (lite build) are the same expression,
  \<^verbatim>\<open>s.replace(/-([a-z])/gi, (_, l) => l.toUpperCase())\<close>: a global replacement scans from
  left to right, and where a hyphen is followed by an ASCII letter the two characters
  are replaced by the upper-case letter and the scan goes on after them; every other
  character is copied.
\<close>

fun camelCase :: "string \<Rightarrow> string" where
  "camelCase (c # d # cs) =
     (if c = CHR ''-'' \<and> isLetter d then toUpperCase d # camelCase cs
      else c # camelCase (d # cs))"
| "camelCase cs = cs"

fun cc :: "string \<Rightarrow> string" where
  "cc (c # d # cs) =
     (if c = CHR ''-'' \<and> isLetter d then toUpperCase d # cc cs
      else c # cc (d # cs))"
| "cc cs = cs"

text \<open>A hyphen, a second hyphen and a letter in a row, somewhere in the string.\<close>

fun doubleHyphenLetter :: "string \<Rightarrow> bool" where
  "doubleHyphenLetter (a # b # c # cs) =
     ((a = CHR ''-'' \<and> b = CHR ''-'' \<and> isLetter c) \<or> doubleHyphenLetter (b # c # cs))"
| "doubleHyphenLetter cs = False"

subsection \<open>Coercion of attribute values\<close>

text \<open>
  The ladder written inline in \<^verbatim>\<open>getPropsFromAttributes\<close> (the test file repeats it under
  the name \<^verbatim>\<open>parseValue\<close>), and the lite build's \<^verbatim>\<open>pv\<close>.
\<close>

definition parseValue :: "string \<Rightarrow> json" where
  "parseValue v =
     (if v = ''true'' then JBool True
      else if v = ''false'' then JBool False
      else if v = ''null'' then JNull
      else if \<not> isNaN (Number v) \<and> v \<noteq> [] then JNumber (Number v)
      else
        (case JSON_parse v of
           Some parsed \<Rightarrow> if typeof parsed = ''object'' then parsed else JString v
         | None \<Rightarrow> JString v))"

definition pv :: "string \<Rightarrow> json" where
  "pv v =
     (if v = ''true'' then JBool True
      else if v = ''false'' then JBool False
      else if v = ''null'' then JNull
      else
        (let n = Number v in
         if \<not> isNaN n \<and> v \<noteq> [] then JNumber n
         else
           (case JSON_parse v of
              Some parsed \<Rightarrow> parsed
            | None \<Rightarrow> JString v)))"

definition isObjectOrArray :: "json \<Rightarrow> bool" where
  "isObjectOrArray v = (case v of JObject ms \<Rightarrow> True | JArray xs \<Rightarrow> True | _ \<Rightarrow> False)"

subsection \<open>Host elements\<close>

text \<open>
  A host element as the engine sees it at the moment of a call: its identity, its
  attributes in order, the \<^verbatim>\<open>innerHTML\<close> of every descendant that
  \<^verbatim>\<open>querySelectorAll('script[type="application/json"], script[type="text/props"]')\<close>
  returns, in document order, and its child nodes. The document itself belongs to the
  platform and to the component runtime, which both change it between calls.
\<close>

datatype node = ElementNode string "(string \<times> string) list" | OtherNode

record element =
  eid :: nat
  attributes :: "(string \<times> string) list"
  propScripts :: "string list"
  childNodes :: "node list"

text \<open>
  \<^verbatim>\<open>props[propName] = value\<close> on a plain object. The key \<^verbatim>\<open>__proto__\<close> is the one
  key for which an assignment creates no own property.
\<close>

definition assign :: "props \<Rightarrow> string \<Rightarrow> json \<Rightarrow> props" where
  "assign p k v = (if k = ''__proto__'' then p else p(k \<mapsto> v))"

definition getPropsFromAttributes :: "element \<Rightarrow> props" where
  "getPropsFromAttributes el =
     foldl (\<lambda>p (name, val).
              if startsWith name ''data-prop-''
              then assign p (camelCase (drop 10 name)) (parseValue val)
              else p)
           Map.empty (attributes el)"

text \<open>The own enumerable properties that an object spread copies from a value.\<close>

definition ownEntries :: "json \<Rightarrow> (string \<times> json) list" where
  "ownEntries v =
     (case v of
        JObject ms \<Rightarrow> ms
      | JArray xs \<Rightarrow> zip (map showNat [0..<length xs]) xs
      | JString s \<Rightarrow> zip (map showNat [0..<length s]) (map (\<lambda>c. JString [c]) s)
      | _ \<Rightarrow> [])"

definition spread :: "json \<Rightarrow> props" where
  "spread v = map_of (rev (ownEntries v))"

text \<open>\<^verbatim>\<open>safeJsonParse\<close>: the parsed value, or the fallback (with a console warning,
  listed by \<open>scriptWarnings\<close> below).\<close>

definition safeJsonParse :: "string \<Rightarrow> json \<Rightarrow> json" where
  "safeJsonParse js fallback = (case JSON_parse js of Some v \<Rightarrow> v | None \<Rightarrow> fallback)"

definition getPropsFromScripts :: "element \<Rightarrow> props" where
  "getPropsFromScripts el =
     foldl (\<lambda>p html.
              let content = trim html in
              if content \<noteq> [] then p ++ spread (safeJsonParse content (JObject [])) else p)
           Map.empty (propScripts el)"

definition scriptWarnings :: "element \<Rightarrow> string list" where
  "scriptWarnings el =
     filter (\<lambda>content. content \<noteq> [] \<and> JSON_parse content = None) (map trim (propScripts el))"

definition collectProps :: "element \<Rightarrow> props \<Rightarrow> props" where
  "collectProps el defaultProps =
     (let attrProps = getPropsFromAttributes el;
          scriptProps = getPropsFromScripts el
      in defaultProps ++ scriptProps ++ attrProps)"

section \<open>LifecycleManager\<close>

text \<open>
  The factory \<^verbatim>\<open>habitat(Widget)\<close> closes over the registry \<^verbatim>\<open>instances\<close> and the variable
  \<^verbatim>\<open>globalOptions\<close>; every call of \<^verbatim>\<open>renderOne\<close> creates the closures \<^verbatim>\<open>unmount\<close> and
  \<^verbatim>\<open>update\<close> over its own \<^verbatim>\<open>element\<close>, \<^verbatim>\<open>root\<close> and \<^verbatim>\<open>props\<close> variable. The model
  passes one state along. A closure is the data it captured; the \<^verbatim>\<open>props\<close> variable of
  an activation, which \<^verbatim>\<open>update\<close> reassigns, is a cell of the state.

  The component runtime (\<^verbatim>\<open>h\<close>, \<^verbatim>\<open>render\<close>, \<^verbatim>\<open>hydrate\<close>), the console and the caller's hooks
  are outside the engine: each call to them is recorded in a trace, in order. A virtual
  node \<^verbatim>\<open>h(Widget, props)\<close> is identified with its properties. Hooks are taken not to call
  back into the factory.
\<close>

datatype root = HostElement nat | ShadowRoot nat

text \<open>An option typed \<^verbatim>\<open>boolean | SomeInit\<close> that may be missing.\<close>

datatype flag = Unset | Flag bool | Init "(string \<times> json) list"

definition truthy :: "flag \<Rightarrow> bool" where
  "truthy f = (case f of Unset \<Rightarrow> False | Flag b \<Rightarrow> b | Init i \<Rightarrow> True)"

text \<open>\<^verbatim>\<open>typeof f === 'object' ? f : dflt\<close>\<close>

definition initOf :: "flag \<Rightarrow> (string \<times> json) list \<Rightarrow> (string \<times> json) list" where
  "initOf f dflt = (case f of Init i \<Rightarrow> i | _ \<Rightarrow> dflt)"

datatype renderFn = Render | Hydrate

datatype unmountFn = Unmount (u_element: nat) (u_root: root)

datatype updateFn = Update (u_cell: nat) (u_target: root)

datatype event =
    ConsoleWarn string
  | RenderCall root "props option"
  | HydrateCall root props
  | BeforeMountHook nat props
  | MountedHook nat props
  | UnmountHook nat
  | RemoveChild nat node
  | AttachShadow nat "(string \<times> json) list"
  | Observe nat nat "(string \<times> json) list"
  | Disconnect nat
  | RegisterCustomElement string

datatype error = NotSupportedError

record options =
  defaultProps :: props
  clean :: bool
  shadowRoot :: flag
  lazy :: flag
  hydrate :: bool
  tagName :: "string option"
  onBeforeMount :: "(element \<Rightarrow> props \<Rightarrow> props option) option"
  onMounted :: bool
  onUnmount :: bool

record widgetInstance =
  i_element :: nat
  i_props :: props
  i_unmount :: unmountFn
  i_update :: updateFn

record meta =
  m_root :: root
  m_vnode :: props
  m_unmount :: unmountFn

text \<open>An intersection observer created by a lazy \<^verbatim>\<open>renderOne\<close>: what its callback
  captured (\<^verbatim>\<open>doRender\<close>, that is the render function, the node and the root), and whether
  the platform still delivers to it.\<close>

record observer =
  o_target :: nat
  o_renderFn :: renderFn
  o_vnode :: props
  o_root :: root
  o_connected :: bool

record state =
  instances :: "widgetInstance list"
  globalOptions :: options
  habitatMeta :: "nat \<rightharpoonup> meta"
  propsVar :: "nat \<Rightarrow> props"
  observers :: "nat \<rightharpoonup> observer"
  shadowHosts :: "nat set"
  customElements :: "string set"
  activations :: nat
  trace :: "event list"

definition noOptions :: options where
  "noOptions = \<lparr>defaultProps = Map.empty, clean = False, shadowRoot = Unset, lazy = Unset,
     hydrate = False, tagName = None, onBeforeMount = None, onMounted = False,
     onUnmount = False\<rparr>"

definition habitat :: state where
  "habitat = \<lparr>instances = [], globalOptions = noOptions, habitatMeta = Map.empty,
     propsVar = (\<lambda>k. Map.empty), observers = Map.empty, shadowHosts = {},
     customElements = {}, activations = 0, trace = []\<rparr>"

definition logEvent :: "event \<Rightarrow> state \<Rightarrow> state" where
  "logEvent ev s = s\<lparr>trace := trace s @ [ev]\<rparr>"

definition logAll :: "event list \<Rightarrow> state \<Rightarrow> state" where
  "logAll evs s = s\<lparr>trace := trace s @ evs\<rparr>"

fun findIndex :: "('a \<Rightarrow> bool) \<Rightarrow> 'a list \<Rightarrow> nat option" where
  "findIndex P [] = None"
| "findIndex P (x # xs) = (if P x then Some 0 else map_option Suc (findIndex P xs))"

text \<open>\<^verbatim>\<open>xs.splice(idx, 1)\<close>\<close>

definition splice1 :: "nat \<Rightarrow> 'a list \<Rightarrow> 'a list" where
  "splice1 idx xs = take idx xs @ drop (Suc idx) xs"

text \<open>\<^verbatim>\<open>renderFn(vnode, root)\<close>, as the trace records it, and the closure \<^verbatim>\<open>doRender\<close>.\<close>

definition activationEvent :: "renderFn \<Rightarrow> props \<Rightarrow> root \<Rightarrow> event" where
  "activationEvent f vnode r =
     (case f of Render \<Rightarrow> RenderCall r (Some vnode) | Hydrate \<Rightarrow> HydrateCall r vnode)"

definition doRender :: "renderFn \<Rightarrow> props \<Rightarrow> root \<Rightarrow> state \<Rightarrow> state" where
  "doRender f vnode r s = logEvent (activationEvent f vnode r) s"

text \<open>The closure \<^verbatim>\<open>unmount\<close> of an activation.\<close>

definition unmount :: "unmountFn \<Rightarrow> state \<Rightarrow> state" where
  "unmount u s =
     (case u of Unmount e r \<Rightarrow>
        (let s1 = logEvent (RenderCall r None) s;
             s2 = s1\<lparr>habitatMeta := (habitatMeta s1)(e := None)\<rparr>;
             s3 = (if onUnmount (globalOptions s2) then logEvent (UnmountHook e) s2 else s2)
         in case findIndex (\<lambda>i. i_element i = e) (instances s3) of
              Some idx \<Rightarrow> s3\<lparr>instances := splice1 idx (instances s3)\<rparr>
            | None \<Rightarrow> s3))"

text \<open>The closure \<^verbatim>\<open>update\<close> of an activation.\<close>

definition update :: "updateFn \<Rightarrow> props \<Rightarrow> state \<Rightarrow> state" where
  "update u newProps s =
     (case u of Update k r \<Rightarrow>
        (let p = propsVar s k ++ newProps;
             s1 = s\<lparr>propsVar := (propsVar s)(k := p)\<rparr>
         in logEvent (RenderCall r (Some p)) s1))"

text \<open>The children that the \<^verbatim>\<open>clean\<close> step keeps: the embedded data blocks.\<close>

definition keepChild :: "node \<Rightarrow> bool" where
  "keepChild child =
     (case child of
        ElementNode tag attrs \<Rightarrow>
          tag = ''SCRIPT'' \<and> (map_of attrs ''type'' = Some ''application/json''
                              \<or> map_of attrs ''type'' = Some ''text/props'')
      | OtherNode \<Rightarrow> False)"

text \<open>
  \<^verbatim>\<open>renderOne(element, overrideProps)\<close>; a missing \<^verbatim>\<open>overrideProps\<close> is the empty bag. The
  function is long, so the model names its phases, in the order of the source.

  Phase 1, the occupied-host check: metadata on the element means a mounted widget,
  which is unmounted through the closure kept in the metadata, after a warning.
\<close>

definition occupiedCheck :: "element \<Rightarrow> state \<Rightarrow> state" where
  "occupiedCheck el s =
     (case habitatMeta s (eid el) of
        Some existingMeta \<Rightarrow>
          unmount (m_unmount existingMeta)
            (logEvent (ConsoleWarn ''[preact-habitat] Element already has a mounted widget'') s)
      | None \<Rightarrow> s)"

text \<open>Phase 2, the properties: collected from the markup over the defaults and the
  overrides (a block that does not parse costs a warning), then offered to the
  \<^verbatim>\<open>onBeforeMount\<close> hook, whose result replaces them when it returns one.\<close>

definition mountProps :: "element \<Rightarrow> props \<Rightarrow> state \<Rightarrow> props" where
  "mountProps el overrideProps s =
     (let props0 = collectProps el (defaultProps (globalOptions s) ++ overrideProps)
      in case onBeforeMount (globalOptions s) of
           Some hook \<Rightarrow> (case hook el props0 of Some modified \<Rightarrow> modified | None \<Rightarrow> props0)
         | None \<Rightarrow> props0)"

definition beforeMount :: "element \<Rightarrow> props \<Rightarrow> state \<Rightarrow> state" where
  "beforeMount el overrideProps s =
     (let s1 = logAll (map (\<lambda>js. ConsoleWarn (''[preact-habitat] Failed to parse JSON props: '' @ js))
                         (scriptWarnings el)) s
      in case onBeforeMount (globalOptions s) of
           Some hook \<Rightarrow>
             logEvent (BeforeMountHook (eid el)
                         (collectProps el (defaultProps (globalOptions s) ++ overrideProps))) s1
         | None \<Rightarrow> s1)"

text \<open>Phase 3, \<^verbatim>\<open>clean\<close>: every child but the embedded data blocks is removed.\<close>

definition cleanHost :: "element \<Rightarrow> state \<Rightarrow> state" where
  "cleanHost el s =
     (if clean (globalOptions s)
      then logAll (map (RemoveChild (eid el)) (filter (\<lambda>c. \<not> keepChild c) (childNodes el))) s
      else s)"

text \<open>
  Phase 4, the render root. \<^verbatim>\<open>element.attachShadow\<close> raises \<^verbatim>\<open>NotSupportedError\<close> on an
  element that already hosts a shadow tree attached by script; \<open>shadowHosts\<close> holds those
  elements. The exception leaves \<^verbatim>\<open>renderOne\<close> at that point, with everything done before
  it in effect. Other platform failures (an element kind that cannot host a shadow
  tree, a missing or rejecting \<^verbatim>\<open>IntersectionObserver\<close>, a hook or component that throws)
  are not modelled.
\<close>

definition mountRoot :: "element \<Rightarrow> state \<Rightarrow> root" where
  "mountRoot el s =
     (if truthy (shadowRoot (globalOptions s)) then ShadowRoot (eid el)
      else HostElement (eid el))"

definition attachFails :: "element \<Rightarrow> state \<Rightarrow> bool" where
  "attachFails el s \<longleftrightarrow> truthy (shadowRoot (globalOptions s)) \<and> eid el \<in> shadowHosts s"

definition attachRoot :: "element \<Rightarrow> state \<Rightarrow> state" where
  "attachRoot el s =
     (if truthy (shadowRoot (globalOptions s))
      then logEvent (AttachShadow (eid el)
                       (initOf (shadowRoot (globalOptions s)) [(''mode'', JString ''open'')]))
             (s\<lparr>shadowHosts := insert (eid el) (shadowHosts s)\<rparr>)
      else s)"

text \<open>Phase 5, the activation: \<^verbatim>\<open>doRender\<close> at once, or an observer on the element whose
  callback holds \<^verbatim>\<open>doRender\<close>.\<close>

definition activate :: "element \<Rightarrow> props \<Rightarrow> root \<Rightarrow> state \<Rightarrow> state" where
  "activate el vnode r s =
     (let renderFn = (if hydrate (globalOptions s) then Hydrate else Render)
      in if truthy (lazy (globalOptions s))
         then logEvent (Observe (activations s) (eid el) (initOf (lazy (globalOptions s)) []))
                (s\<lparr>observers := (observers s)(activations s \<mapsto>
                      \<lparr>o_target = eid el, o_renderFn = renderFn, o_vnode = vnode,
                       o_root = r, o_connected = True\<rparr>)\<rparr>)
         else doRender renderFn vnode r s)"

text \<open>Phase 6, the bookkeeping: metadata on the element, the instance pushed on the
  registry, the \<^verbatim>\<open>onMounted\<close> hook.\<close>

definition mountInstance :: "element \<Rightarrow> props \<Rightarrow> state \<Rightarrow> widgetInstance" where
  "mountInstance el overrideProps s =
     \<lparr>i_element = eid el, i_props = mountProps el overrideProps s,
      i_unmount = Unmount (eid el) (mountRoot el s),
      i_update = Update (activations s) (mountRoot el s)\<rparr>"

definition register :: "widgetInstance \<Rightarrow> state \<Rightarrow> state" where
  "register inst s =
     (let s1 = s\<lparr>habitatMeta := (habitatMeta s)(i_element inst \<mapsto>
                     \<lparr>m_root = u_root (i_unmount inst), m_vnode = i_props inst,
                      m_unmount = i_unmount inst\<rparr>),
                  propsVar := (propsVar s)(u_cell (i_update inst) := i_props inst),
                  activations := Suc (activations s)\<rparr>;
          s2 = s1\<lparr>instances := instances s1 @ [inst]\<rparr>
      in if onMounted (globalOptions s2)
         then logEvent (MountedHook (i_element inst) (i_props inst)) s2 else s2)"

definition renderOne :: "element \<Rightarrow> props \<Rightarrow> state \<Rightarrow> (error + widgetInstance) \<times> state" where
  "renderOne el overrideProps s =
     (let s1 = cleanHost el (beforeMount el overrideProps (occupiedCheck el s));
          inst = mountInstance el overrideProps s
      in if attachFails el s1 then (Inl NotSupportedError, s1)
         else (Inr inst,
               register inst (activate el (i_props inst) (u_root (i_unmount inst))
                                (attachRoot el s1))))"

text \<open>
  The callback given to \<^verbatim>\<open>new IntersectionObserver\<close> by activation \<open>k\<close>, run on a batch of
  entries (their \<^verbatim>\<open>isIntersecting\<close> flags), and the platform's delivery of a batch, which
  reaches connected observers only.
\<close>

definition disconnect :: "nat \<Rightarrow> state \<Rightarrow> state" where
  "disconnect k s =
     logEvent (Disconnect k)
       (s\<lparr>observers := (case observers s k of
                          Some ob \<Rightarrow> (observers s)(k \<mapsto> ob\<lparr>o_connected := False\<rparr>)
                        | None \<Rightarrow> observers s)\<rparr>)"

definition observerCallback :: "nat \<Rightarrow> bool list \<Rightarrow> state \<Rightarrow> state" where
  "observerCallback k entries s =
     foldl (\<lambda>s isIntersecting.
              if isIntersecting then
                (case observers s k of
                   Some ob \<Rightarrow> disconnect k (doRender (o_renderFn ob) (o_vnode ob) (o_root ob) s)
                 | None \<Rightarrow> s)
              else s)
           s entries"

definition deliver :: "nat \<Rightarrow> bool list \<Rightarrow> state \<Rightarrow> state" where
  "deliver k entries s =
     (case observers s k of
        Some ob \<Rightarrow> if o_connected ob then observerCallback k entries s else s
      | None \<Rightarrow> s)"

text \<open>\<^verbatim>\<open>unmountAll\<close> walks a copy of the registry.\<close>

definition unmountAll :: "state \<Rightarrow> state" where
  "unmountAll s = foldl (\<lambda>s i. unmount (i_unmount i) s) s (instances s)"

text \<open>\<^verbatim>\<open>registerCustomElement\<close>: a tag name that the platform's registry of custom elements
  already knows costs a warning and defines nothing; otherwise the element class is
  defined under the name. (The class itself, with its own \<^verbatim>\<open>_mounted\<close> flag, is not part of
  the factory's state.)\<close>

definition registerCustomElement :: "string \<Rightarrow> state \<Rightarrow> state" where
  "registerCustomElement t s =
     (if t \<in> customElements s
      then logEvent (ConsoleWarn (''[preact-habitat] Custom element \"'' @ t
                                   @ ''\" already registered'')) s
      else logEvent (RegisterCustomElement t) (s\<lparr>customElements := insert t (customElements s)\<rparr>))"

text \<open>\<^verbatim>\<open>renderAll\<close> (exported as \<^verbatim>\<open>render\<close>), given the elements that \<^verbatim>\<open>findHostElements\<close>
  finds in the document.\<close>

fun renderEach :: "element list \<Rightarrow> widgetInstance list \<Rightarrow> state \<Rightarrow> (error + widgetInstance list) \<times> state" where
  "renderEach [] newInstances s = (Inr newInstances, s)"
| "renderEach (el # els) newInstances s =
     (case renderOne el Map.empty s of
        (Inl err, s') \<Rightarrow> (Inl err, s')
      | (Inr inst, s') \<Rightarrow> renderEach els (newInstances @ [inst]) s')"

definition renderAll :: "options \<Rightarrow> element list \<Rightarrow> state \<Rightarrow> (error + widgetInstance list) \<times> state" where
  "renderAll opts found s =
     (let s1 = s\<lparr>globalOptions := opts\<rparr> in
      case tagName opts of
        Some t \<Rightarrow> if t \<noteq> []
                  then (let s2 = registerCustomElement t s1 in (Inr (instances s2), s2))
                  else renderEach found [] s1
      | None \<Rightarrow> renderEach found [] s1)"

text \<open>What the trace says: the activation renders (a render or hydrate of the component,
  as opposed to the empty render of an unmount) and the unmount hook calls.\<close>

definition isActivation :: "event \<Rightarrow> bool" where
  "isActivation ev =
     (case ev of RenderCall r (Some v) \<Rightarrow> True | HydrateCall r v \<Rightarrow> True | _ \<Rightarrow> False)"

definition activationsOn :: "root \<Rightarrow> event list \<Rightarrow> nat" where
  "activationsOn r evs =
     length (filter (\<lambda>ev. case ev of RenderCall r' (Some v) \<Rightarrow> r' = r
                                    | HydrateCall r' v \<Rightarrow> r' = r | _ \<Rightarrow> False) evs)"

definition unmountHookCalls :: "nat \<Rightarrow> event list \<Rightarrow> nat" where
  "unmountHookCalls e evs = length (filter (\<lambda>ev. ev = UnmountHook e) evs)"

definition liveInstances :: "nat \<Rightarrow> state \<Rightarrow> nat" where
  "liveInstances e s = length (filter (\<lambda>i. i_element i = e) (instances s))"

text \<open>The registry and the metadata agree: one entry at most per host element, every
  entry's host carries metadata, and the metadata of an element holds an \<^verbatim>\<open>unmount\<close> closure
  over that element.\<close>

definition registry_ok :: "state \<Rightarrow> bool" where
  "registry_ok s \<longleftrightarrow>
     distinct (map i_element (instances s))
     \<and> list_all (\<lambda>i. habitatMeta s (i_element i) \<noteq> None) (instances s)
     \<and> (\<forall>e m. habitatMeta s e = Some m \<longrightarrow> u_element (m_unmount m) = e)"

text \<open>The states a factory can be in: whatever sequence of \<^verbatim>\<open>render\<close> (which sets the
  options), \<^verbatim>\<open>renderOne\<close>, \<^verbatim>\<open>unmount\<close>, \<^verbatim>\<open>update\<close> and observer deliveries led there.\<close>

inductive reachable :: "state \<Rightarrow> bool" where
  start: "reachable habitat"
| configure: "reachable s \<Longrightarrow> reachable (s\<lparr>globalOptions := opts\<rparr>)"
| mount: "reachable s \<Longrightarrow> reachable (snd (renderOne el p s))"
| unmounted: "reachable s \<Longrightarrow> reachable (unmount u s)"
| updated: "reachable s \<Longrightarrow> reachable (update up p s)"
| delivered: "reachable s \<Longrightarrow> reachable (deliver k entries s)"

section \<open>EventBus\<close>


datatype busEvent = Called nat "json list" | ConsoleError string

type_synonym bus = "string \<rightharpoonup> nat option list"

definition setAdd :: "nat \<Rightarrow> nat option list \<Rightarrow> nat option list" where
  "setAdd cb slots = (if Some cb \<in> set slots then slots else slots @ [Some cb])"

definition setDelete :: "nat \<Rightarrow> nat option list \<Rightarrow> nat option list" where
  "setDelete cb slots = map (\<lambda>e. if e = Some cb then None else e) slots"

definition on :: "string \<Rightarrow> nat \<Rightarrow> bus \<Rightarrow> bus" where
  "on ev cb b =
     (let b1 = (if b ev = None then b(ev \<mapsto> []) else b)
      in b1(ev \<mapsto> setAdd cb (case b1 ev of Some slots \<Rightarrow> slots | None \<Rightarrow> [])))"

definition off :: "string \<Rightarrow> nat \<Rightarrow> bus \<Rightarrow> bus" where
  "off ev cb b = (case b ev of Some slots \<Rightarrow> b(ev \<mapsto> setDelete cb slots) | None \<Rightarrow> b)"

definition clear :: "bus \<Rightarrow> bus" where
  "clear b = Map.empty"





definition invoked :: "busEvent list \<Rightarrow> nat list" where
  "invoked lg = List.map_filter (\<lambda>x. case x of Called cb args \<Rightarrow> Some cb | _ \<Rightarrow> None) lg"



text \<open>A later state of the same set: slots may have been added at the end and entries
  deleted, but no slot is filled again.\<close>

definition later :: "nat option list \<Rightarrow> nat option list \<Rightarrow> bool" where
  "later slots slots' \<longleftrightarrow>
     length slots \<le> length slots'
     \<and> (\<forall>j<length slots. \<forall>cb. slots' ! j = Some cb \<longrightarrow> slots ! j = Some cb)"

section \<open>Notions used in the statements\<close>

text \<open>A hyphen followed by a letter, somewhere in the string: what the hump conversion
  would still rewrite.\<close>

fun hyphenLetter :: "string \<Rightarrow> bool" where
  "hyphenLetter (a # b # cs) = ((a = CHR ''-'' \<and> isLetter b) \<or> hyphenLetter (b # cs))"
| "hyphenLetter cs = False"

text \<open>The events that a run from \<open>s\<close> to \<open>s'\<close> added to the trace.\<close>

definition newEvents :: "state \<Rightarrow> state \<Rightarrow> event list" where
  "newEvents s s' = drop (length (trace s)) (trace s')"

section \<open>PropExtractor: proofs\<close>

subsection \<open>Hump conversion\<close>

lemma cc_camelCase: "cc s = camelCase s"
  by (induction s rule: camelCase.induct) auto

lemma toUpperCase_letter: "isLetter d \<Longrightarrow> isLetter (toUpperCase d)"
  by (auto simp: isLetter_def toUpperCase_def isLower_def isUpper_def)

lemma letter_not_hyphen: "isLetter d \<Longrightarrow> d \<noteq> CHR ''-''"
  by (auto simp: isLetter_def isLower_def isUpper_def)

lemma camelCase_fixed: "\<not> hyphenLetter t \<Longrightarrow> camelCase t = t"
  by (induction t rule: camelCase.induct) auto

lemma camelCase_length: "length (camelCase t) \<le> length t"
  by (induction t rule: camelCase.induct) auto

lemma camelCase_shorter: "hyphenLetter t \<Longrightarrow> length (camelCase t) < length t"
  using camelCase_length
  by (induction t rule: camelCase.induct) (auto simp: less_Suc_eq_le le_SucI)

text \<open>The head of the output, by cases on the head of the input.\<close>

lemma camelCase_Cons:
  "camelCase (c # cs) =
     (if c = CHR ''-'' \<and> cs \<noteq> [] \<and> isLetter (hd cs) then toUpperCase (hd cs) # camelCase (tl cs)
      else c # camelCase cs)"
  by (cases cs) auto

lemma hyphenLetter_Cons:
  "hyphenLetter (c # cs) = ((c = CHR ''-'' \<and> cs \<noteq> [] \<and> isLetter (hd cs)) \<or> hyphenLetter cs)"
  by (cases cs) auto

text \<open>A hyphen survives the conversion only in front of a non-letter; it ends up in front
  of a letter exactly when that non-letter was a second hyphen that was itself rewritten.\<close>

lemma hyphenLetter_camelCase: "hyphenLetter (camelCase s) = doubleHyphenLetter s"
proof (induction s rule: doubleHyphenLetter.induct)
  case (1 a b c cs)
  then show ?case
    by (auto simp: toUpperCase_letter letter_not_hyphen hyphenLetter_Cons camelCase_Cons
        split: if_splits)
qed (auto simp: toUpperCase_letter letter_not_hyphen)

lemma camelCase_idem_iff: "camelCase (camelCase s) = camelCase s \<longleftrightarrow> \<not> doubleHyphenLetter s"
proof
  assume fixed: "camelCase (camelCase s) = camelCase s"
  show "\<not> doubleHyphenLetter s"
  proof
    assume "doubleHyphenLetter s"
    then have "hyphenLetter (camelCase s)"
      by (simp add: hyphenLetter_camelCase)
    then have "length (camelCase (camelCase s)) < length (camelCase s)"
      by (rule camelCase_shorter)
    with fixed show False by simp
  qed
next
  assume "\<not> doubleHyphenLetter s"
  then have "\<not> hyphenLetter (camelCase s)"
    by (simp add: hyphenLetter_camelCase)
  then show "camelCase (camelCase s) = camelCase s"
    by (rule camelCase_fixed)
qed

text \<open>
  C9, as amended. The hump conversion (\<^verbatim>\<open>camelCase\<close>, and \<^verbatim>\<open>cc\<close> of the lite build) is
  idempotent on a string exactly when the string has no two hyphens in a row followed by
  a letter: so on every name whose words are joined by single hyphens and on every
  already-humped name, but not on every string. Converting \<^verbatim>\<open>price\<close> yields \<^verbatim>\<open>price\<close>, and
  converting \<^verbatim>\<open>discount-percent\<close> yields \<^verbatim>\<open>discountPercent\<close>.
\<close>

theorem hump_conversion_idempotent:
  "(camelCase (camelCase s) = camelCase s \<longleftrightarrow> \<not> doubleHyphenLetter s)
   \<and> (cc (cc s) = cc s \<longleftrightarrow> \<not> doubleHyphenLetter s)
   \<and> camelCase ''price'' = ''price''
   \<and> camelCase ''discount-percent'' = ''discountPercent''
   \<and> cc ''price'' = ''price''
   \<and> cc ''discount-percent'' = ''discountPercent''"
proof -
  have "camelCase ''price'' = ''price''"
    and "camelCase ''discount-percent'' = ''discountPercent''"
    by code_simp+
  then show ?thesis
    by (simp add: cc_camelCase camelCase_idem_iff)
qed

theorem hump_conversion_idempotent_witness:
  "\<not> doubleHyphenLetter ''discount-percent''
   \<and> camelCase (camelCase ''discount-percent'') = camelCase ''discount-percent''
   \<and> camelCase (camelCase ''discount-percent'') = ''discountPercent''"
proof -
  have "\<not> doubleHyphenLetter ''discount-percent''"
    by code_simp
  with hump_conversion_idempotent [of "''discount-percent''"] show ?thesis
    by simp
qed

text \<open>The conversion is not idempotent on every string: \<^verbatim>\<open>--a\<close> becomes \<^verbatim>\<open>-A\<close>, which
  becomes \<^verbatim>\<open>A\<close>.\<close>

theorem hump_conversion_not_idempotent:
  "camelCase ''--a'' = ''-A'' \<and> camelCase (camelCase ''--a'') = ''A''
   \<and> camelCase (camelCase ''--a'') \<noteq> camelCase ''--a''
   \<and> cc (cc ''--a'') \<noteq> cc ''--a''"
  by code_simp

subsection \<open>Coercion of attribute values\<close>

lemma Number_empty: "Number [] = Finite 0"
  by (simp add: Number_def trim_def)

lemma JSON_parse_empty: "JSON_parse [] = None"
  by (simp add: JSON_parse_def)

lemma typeof_object: "typeof parsed = ''object'' \<longleftrightarrow> isObjectOrArray parsed \<or> parsed = JNull"
  by (cases parsed) (auto simp: isObjectOrArray_def)

lemma coercion_ladder:
  "v \<notin> {''true'', ''false'', ''null''} \<longrightarrow>
     (if v \<noteq> [] \<and> \<not> isNaN (Number v)
      then parseValue v = JNumber (Number v) \<and> pv v = JNumber (Number v)
      else (case JSON_parse v of
              Some parsed \<Rightarrow>
                (isObjectOrArray parsed \<longrightarrow> parseValue v = parsed)
                \<and> (typeof parsed \<noteq> ''object'' \<longrightarrow> parseValue v = JString v)
                \<and> pv v = parsed
            | None \<Rightarrow> parseValue v = JString v \<and> pv v = JString v))"
  by (auto simp: parseValue_def pv_def Let_def typeof_object split: option.splits)

lemma coercion_examples:
  "parseValue ''42'' = JNumber (Finite 42)"
  "parseValue ''3.14'' = JNumber (Finite 3.14)"
  "parseValue ''hello'' = JString ''hello''"
  "parseValue ''{\"a\":1}'' = JObject [(''a'', JNumber (Finite 1))]"
  by code_simp+

text \<open>
  C7, as amended. The coercion written in \<^verbatim>\<open>getPropsFromAttributes\<close> applies in order, first
  match wins: \<^verbatim>\<open>true\<close> and \<^verbatim>\<open>false\<close> become booleans; \<^verbatim>\<open>null\<close> becomes null; a non-empty
  string that \<^verbatim>\<open>Number\<close> accepts becomes that number; otherwise a string that \<^verbatim>\<open>JSON.parse\<close>
  accepts is replaced by the parse result when that is an object or an array, and is kept
  as it is when the result is a string, a boolean or a number; a string that does not
  parse, the empty string included, is kept as it is. The lite build's \<^verbatim>\<open>pv\<close> has the same
  first four steps but keeps every parse result, whatever its type. So \<^verbatim>\<open>42\<close> yields 42,
  \<^verbatim>\<open>3.14\<close> yields 3.14, \<^verbatim>\<open>hello\<close> stays a string, \<^verbatim>\<open>{"a":1}\<close> yields the object, and the
  empty string stays the empty string. (The one parse result the statement leaves open
  is null, which only a \<^verbatim>\<open>null\<close> padded with white space produces; \<^verbatim>\<open>typeof\<close> calls it an
  object.)
\<close>

theorem attribute_coercion:
  "parseValue ''true'' = JBool True \<and> parseValue ''false'' = JBool False
   \<and> parseValue ''null'' = JNull
   \<and> pv ''true'' = JBool True \<and> pv ''false'' = JBool False \<and> pv ''null'' = JNull
   \<and> (v \<notin> {''true'', ''false'', ''null''} \<longrightarrow>
        (if v \<noteq> [] \<and> \<not> isNaN (Number v)
         then parseValue v = JNumber (Number v) \<and> pv v = JNumber (Number v)
         else (case JSON_parse v of
                 Some parsed \<Rightarrow>
                   (isObjectOrArray parsed \<longrightarrow> parseValue v = parsed)
                   \<and> (typeof parsed \<noteq> ''object'' \<longrightarrow> parseValue v = JString v)
                   \<and> pv v = parsed
               | None \<Rightarrow> parseValue v = JString v \<and> pv v = JString v)))
   \<and> parseValue [] = JString [] \<and> pv [] = JString []
   \<and> parseValue ''42'' = JNumber (Finite 42)
   \<and> parseValue ''3.14'' = JNumber (Finite 3.14)
   \<and> parseValue ''hello'' = JString ''hello''
   \<and> parseValue ''{\"a\":1}'' = JObject [(''a'', JNumber (Finite 1))]"
proof -
  have "parseValue [] = JString []" and "pv [] = JString []"
    by (simp_all add: parseValue_def pv_def JSON_parse_empty)
  moreover have "parseValue ''true'' = JBool True" "parseValue ''false'' = JBool False"
    "parseValue ''null'' = JNull" "pv ''true'' = JBool True" "pv ''false'' = JBool False"
    "pv ''null'' = JNull"
    by (simp_all add: parseValue_def pv_def)
  ultimately show ?thesis
    using coercion_ladder [of v] coercion_examples by simp
qed

theorem attribute_coercion_witness:
  "''{\"a\":1}'' \<notin> {''true'', ''false'', ''null''}
   \<and> isNaN (Number ''{\"a\":1}'')
   \<and> JSON_parse ''{\"a\":1}'' = Some (JObject [(''a'', JNumber (Finite 1))])
   \<and> parseValue ''{\"a\":1}'' = JObject [(''a'', JNumber (Finite 1))]
   \<and> pv ''{\"a\":1}'' = JObject [(''a'', JNumber (Finite 1))]"
proof -
  have n: "isNaN (Number ''{\"a\":1}'')"
    by code_simp
  have p: "JSON_parse ''{\"a\":1}'' = Some (JObject [(''a'', JNumber (Finite 1))])"
    by code_simp
  from attribute_coercion [of "''{\"a\":1}''"] n p show ?thesis
    by (simp add: isObjectOrArray_def)
qed

text \<open>The parse result of a quoted string is a string, neither object nor array, and
  \<^verbatim>\<open>pv\<close> keeps it instead of the attribute's text; \<^verbatim>\<open>getPropsFromAttributes\<close> turns a padded
  \<^verbatim>\<open>null\<close> into null.\<close>

theorem attribute_coercion_keeps_other_results:
  "JSON_parse ''\"hello\"'' = Some (JString ''hello'')
   \<and> \<not> isObjectOrArray (JString ''hello'')
   \<and> pv ''\"hello\"'' = JString ''hello''
   \<and> pv ''\"hello\"'' \<noteq> JString ''\"hello\"''
   \<and> JSON_parse '' null'' = Some JNull
   \<and> \<not> isObjectOrArray JNull
   \<and> parseValue '' null'' = JNull
   \<and> parseValue '' null'' \<noteq> JString '' null''"
  by code_simp

subsection \<open>Precedence of the three sources\<close>

lemma precedence_example_attributes:
  "getPropsFromAttributes
     \<lparr>eid = e, attributes = [(''data-prop-c'', ''5'')], propScripts = [''{\"b\":3,\"c\":4}''],
      childNodes = cs\<rparr>
   = [''c'' \<mapsto> JNumber (Finite 5)]"
proof -
  have "parseValue ''5'' = JNumber (Finite 5)"
    by code_simp
  then show ?thesis
    by (simp add: getPropsFromAttributes_def startsWith_def assign_def)
qed

lemma precedence_example_scripts:
  "getPropsFromScripts
     \<lparr>eid = e, attributes = [(''data-prop-c'', ''5'')], propScripts = [''{\"b\":3,\"c\":4}''],
      childNodes = cs\<rparr>
   = [''b'' \<mapsto> JNumber (Finite 3), ''c'' \<mapsto> JNumber (Finite 4)]"
proof -
  have "trim ''{\"b\":3,\"c\":4}'' = ''{\"b\":3,\"c\":4}''"
    by code_simp
  moreover have "JSON_parse ''{\"b\":3,\"c\":4}''
      = Some (JObject [(''b'', JNumber (Finite 3)), (''c'', JNumber (Finite 4))])"
    by code_simp
  ultimately show ?thesis
    by (simp add: getPropsFromScripts_def safeJsonParse_def spread_def ownEntries_def)
qed

text \<open>
  C6. \<^verbatim>\<open>collectProps\<close> merges the three sources with a fixed precedence: a key set by a
  recognized attribute has the attribute's value; otherwise a key set by an embedded
  data block has the block's value; otherwise the key has the caller's default, if any.
  In particular the defaults \<^verbatim>\<open>{a:1,b:2}\<close>, an embedded block \<^verbatim>\<open>{"b":3,"c":4}\<close> and the
  attribute \<^verbatim>\<open>data-prop-c="5"\<close> give exactly \<^verbatim>\<open>{a:1,b:3,c:5}\<close>.
\<close>

theorem collectProps_precedence:
  "collectProps el defaults k =
     (case getPropsFromAttributes el k of
        Some v \<Rightarrow> Some v
      | None \<Rightarrow> (case getPropsFromScripts el k of Some v \<Rightarrow> Some v | None \<Rightarrow> defaults k))
   \<and> collectProps
        \<lparr>eid = e, attributes = [(''data-prop-c'', ''5'')], propScripts = [''{\"b\":3,\"c\":4}''],
         childNodes = cs\<rparr>
        [''a'' \<mapsto> JNumber (Finite 1), ''b'' \<mapsto> JNumber (Finite 2)]
      = [''a'' \<mapsto> JNumber (Finite 1), ''b'' \<mapsto> JNumber (Finite 3), ''c'' \<mapsto> JNumber (Finite 5)]"
proof
  show "collectProps el defaults k =
     (case getPropsFromAttributes el k of
        Some v \<Rightarrow> Some v
      | None \<Rightarrow> (case getPropsFromScripts el k of Some v \<Rightarrow> Some v | None \<Rightarrow> defaults k))"
    by (simp add: collectProps_def Let_def map_add_def split: option.splits)
  show "collectProps
        \<lparr>eid = e, attributes = [(''data-prop-c'', ''5'')], propScripts = [''{\"b\":3,\"c\":4}''],
         childNodes = cs\<rparr>
        [''a'' \<mapsto> JNumber (Finite 1), ''b'' \<mapsto> JNumber (Finite 2)]
      = [''a'' \<mapsto> JNumber (Finite 1), ''b'' \<mapsto> JNumber (Finite 3), ''c'' \<mapsto> JNumber (Finite 5)]"
    by (rule ext)
      (simp add: collectProps_def precedence_example_attributes precedence_example_scripts
        map_add_def)
qed

theorem collectProps_precedence_witness:
  "map (collectProps
          \<lparr>eid = 0, attributes = [(''data-prop-c'', ''5'')], propScripts = [''{\"b\":3,\"c\":4}''],
           childNodes = []\<rparr>
          [''a'' \<mapsto> JNumber (Finite 1), ''b'' \<mapsto> JNumber (Finite 2)])
       [''a'', ''b'', ''c'', ''d'']
   = [Some (JNumber (Finite 1)), Some (JNumber (Finite 3)), Some (JNumber (Finite 5)), None]"
  using collectProps_precedence [of _ _ _ 0 "[]"]
  by simp

section \<open>LifecycleManager: proofs\<close>

subsection \<open>What each phase changes\<close>

lemma splice1_simps [simp]:
  "splice1 0 (x # xs) = xs" "splice1 (Suc n) (x # xs) = x # splice1 n xs"
  by (simp_all add: splice1_def)

text \<open>Removing the entry that \<^verbatim>\<open>findIndex\<close> finds removes the first entry of that element.\<close>

lemma findIndex_splice_map:
  "map f (case findIndex (\<lambda>i. f i = e) xs of Some idx \<Rightarrow> splice1 idx xs | None \<Rightarrow> xs)
     = remove1 e (map f xs)"
  by (induction xs) (auto split: option.splits)

lemma findIndex_splice_subset:
  "set (case findIndex P xs of Some idx \<Rightarrow> splice1 idx xs | None \<Rightarrow> xs) \<subseteq> set xs"
  by (induction xs) (auto split: option.splits)

lemma findIndex_None: "e \<notin> f ` set xs \<Longrightarrow> findIndex (\<lambda>i. f i = e) xs = None"
  by (induction xs) auto

lemma logEvent_fields [simp]:
  "trace (logEvent ev s) = trace s @ [ev]"
  "instances (logEvent ev s) = instances s"
  "globalOptions (logEvent ev s) = globalOptions s"
  "habitatMeta (logEvent ev s) = habitatMeta s"
  "propsVar (logEvent ev s) = propsVar s"
  "observers (logEvent ev s) = observers s"
  "shadowHosts (logEvent ev s) = shadowHosts s"
  "activations (logEvent ev s) = activations s"
  by (simp_all add: logEvent_def)

lemma logAll_fields [simp]:
  "trace (logAll evs s) = trace s @ evs"
  "instances (logAll evs s) = instances s"
  "globalOptions (logAll evs s) = globalOptions s"
  "habitatMeta (logAll evs s) = habitatMeta s"
  "propsVar (logAll evs s) = propsVar s"
  "observers (logAll evs s) = observers s"
  "shadowHosts (logAll evs s) = shadowHosts s"
  "activations (logAll evs s) = activations s"
  by (simp_all add: logAll_def)

lemma unmount_fields:
  "trace (unmount u s)
     = trace s @ RenderCall (u_root u) None
         # (if onUnmount (globalOptions s) then [UnmountHook (u_element u)] else [])"
  "habitatMeta (unmount u s) = (habitatMeta s)(u_element u := None)"
  "instances (unmount u s)
     = (case findIndex (\<lambda>i. i_element i = u_element u) (instances s) of
          Some idx \<Rightarrow> splice1 idx (instances s) | None \<Rightarrow> instances s)"
  "globalOptions (unmount u s) = globalOptions s"
  "propsVar (unmount u s) = propsVar s"
  "observers (unmount u s) = observers s"
  "shadowHosts (unmount u s) = shadowHosts s"
  "activations (unmount u s) = activations s"
  by (cases u; simp add: unmount_def Let_def split: option.splits)+

lemma unmount_elements:
  "map i_element (instances (unmount u s)) = remove1 (u_element u) (map i_element (instances s))"
  by (simp add: unmount_fields findIndex_splice_map)

lemma occupiedCheck_fields [simp]:
  "globalOptions (occupiedCheck el s) = globalOptions s"
  "propsVar (occupiedCheck el s) = propsVar s"
  "observers (occupiedCheck el s) = observers s"
  "shadowHosts (occupiedCheck el s) = shadowHosts s"
  "activations (occupiedCheck el s) = activations s"
  by (simp_all add: occupiedCheck_def unmount_fields split: option.splits)

lemma occupiedCheck_registry:
  "instances (occupiedCheck el s) =
     (case habitatMeta s (eid el) of
        Some m \<Rightarrow> (case findIndex (\<lambda>i. i_element i = u_element (m_unmount m)) (instances s) of
                     Some idx \<Rightarrow> splice1 idx (instances s) | None \<Rightarrow> instances s)
      | None \<Rightarrow> instances s)"
  "habitatMeta (occupiedCheck el s) =
     (case habitatMeta s (eid el) of
        Some m \<Rightarrow> (habitatMeta s)(u_element (m_unmount m) := None)
      | None \<Rightarrow> habitatMeta s)"
  by (simp_all add: occupiedCheck_def unmount_fields split: option.splits)

lemma occupiedCheck_trace:
  "trace (occupiedCheck el s) = trace s @
     (case habitatMeta s (eid el) of
        Some m \<Rightarrow> ConsoleWarn ''[preact-habitat] Element already has a mounted widget''
                  # RenderCall (u_root (m_unmount m)) None
                  # (if onUnmount (globalOptions s) then [UnmountHook (u_element (m_unmount m))]
                     else [])
      | None \<Rightarrow> [])"
  by (simp add: occupiedCheck_def unmount_fields split: option.splits)

lemma beforeMount_fields [simp]:
  "instances (beforeMount el p s) = instances s"
  "globalOptions (beforeMount el p s) = globalOptions s"
  "habitatMeta (beforeMount el p s) = habitatMeta s"
  "propsVar (beforeMount el p s) = propsVar s"
  "observers (beforeMount el p s) = observers s"
  "shadowHosts (beforeMount el p s) = shadowHosts s"
  "activations (beforeMount el p s) = activations s"
  by (simp_all add: beforeMount_def Let_def split: option.splits)

lemma beforeMount_trace:
  "trace (beforeMount el p s) = trace s
     @ map (\<lambda>js. ConsoleWarn (''[preact-habitat] Failed to parse JSON props: '' @ js))
         (scriptWarnings el) @
     (case onBeforeMount (globalOptions s) of
        Some hook \<Rightarrow> [BeforeMountHook (eid el)
                        (collectProps el (defaultProps (globalOptions s) ++ p))]
      | None \<Rightarrow> [])"
  by (simp add: beforeMount_def Let_def split: option.splits)

lemma cleanHost_fields [simp]:
  "instances (cleanHost el s) = instances s"
  "globalOptions (cleanHost el s) = globalOptions s"
  "habitatMeta (cleanHost el s) = habitatMeta s"
  "propsVar (cleanHost el s) = propsVar s"
  "observers (cleanHost el s) = observers s"
  "shadowHosts (cleanHost el s) = shadowHosts s"
  "activations (cleanHost el s) = activations s"
  by (simp_all add: cleanHost_def)

lemma cleanHost_trace:
  "trace (cleanHost el s) = trace s @
     (if clean (globalOptions s)
      then map (RemoveChild (eid el)) (filter (\<lambda>c. \<not> keepChild c) (childNodes el)) else [])"
  by (simp add: cleanHost_def)

lemma attachRoot_fields [simp]:
  "instances (attachRoot el s) = instances s"
  "globalOptions (attachRoot el s) = globalOptions s"
  "habitatMeta (attachRoot el s) = habitatMeta s"
  "propsVar (attachRoot el s) = propsVar s"
  "observers (attachRoot el s) = observers s"
  "activations (attachRoot el s) = activations s"
  by (simp_all add: attachRoot_def)

lemma attachRoot_trace:
  "trace (attachRoot el s) = trace s @
     (if truthy (shadowRoot (globalOptions s))
      then [AttachShadow (eid el)
              (initOf (shadowRoot (globalOptions s)) [(''mode'', JString ''open'')])]
      else [])"
  by (simp add: attachRoot_def)

lemma doRender_fields [simp]:
  "trace (doRender f v r s) = trace s @ [activationEvent f v r]"
  "instances (doRender f v r s) = instances s"
  "globalOptions (doRender f v r s) = globalOptions s"
  "habitatMeta (doRender f v r s) = habitatMeta s"
  "propsVar (doRender f v r s) = propsVar s"
  "observers (doRender f v r s) = observers s"
  "shadowHosts (doRender f v r s) = shadowHosts s"
  "activations (doRender f v r s) = activations s"
  by (simp_all add: doRender_def)

lemma activate_fields [simp]:
  "instances (activate el v r s) = instances s"
  "globalOptions (activate el v r s) = globalOptions s"
  "habitatMeta (activate el v r s) = habitatMeta s"
  "propsVar (activate el v r s) = propsVar s"
  "shadowHosts (activate el v r s) = shadowHosts s"
  "activations (activate el v r s) = activations s"
  by (simp_all add: activate_def Let_def)

lemma activate_trace:
  "trace (activate el v r s) = trace s @
     [if truthy (lazy (globalOptions s))
      then Observe (activations s) (eid el) (initOf (lazy (globalOptions s)) [])
      else activationEvent (if hydrate (globalOptions s) then Hydrate else Render) v r]"
  by (simp add: activate_def Let_def)

lemma register_fields [simp]:
  "instances (register inst s) = instances s @ [inst]"
  "globalOptions (register inst s) = globalOptions s"
  "habitatMeta (register inst s) = (habitatMeta s)(i_element inst \<mapsto>
     \<lparr>m_root = u_root (i_unmount inst), m_vnode = i_props inst, m_unmount = i_unmount inst\<rparr>)"
  "propsVar (register inst s) = (propsVar s)(u_cell (i_update inst) := i_props inst)"
  "observers (register inst s) = observers s"
  "shadowHosts (register inst s) = shadowHosts s"
  "activations (register inst s) = Suc (activations s)"
  by (simp_all add: register_def Let_def)

lemma register_trace:
  "trace (register inst s) = trace s @
     (if onMounted (globalOptions s) then [MountedHook (i_element inst) (i_props inst)] else [])"
  by (simp add: register_def Let_def)

lemma attachFails_phases [simp]:
  "attachFails el (cleanHost el' s) = attachFails el s"
  "attachFails el (beforeMount el' p s) = attachFails el s"
  "attachFails el (occupiedCheck el' s) = attachFails el s"
  by (simp_all add: attachFails_def)

lemma mountInstance_fields [simp]:
  "i_element (mountInstance el p s) = eid el"
  "i_props (mountInstance el p s) = mountProps el p s"
  "i_unmount (mountInstance el p s) = Unmount (eid el) (mountRoot el s)"
  "i_update (mountInstance el p s) = Update (activations s) (mountRoot el s)"
  by (simp_all add: mountInstance_def)

subsection \<open>What a mount returns and leaves behind\<close>

lemma renderOne_result:
  "fst (renderOne el p s) =
     (if attachFails el s then Inl NotSupportedError else Inr (mountInstance el p s))"
  by (simp add: renderOne_def Let_def)

lemma renderOne_instances:
  "instances (snd (renderOne el p s)) =
     (if attachFails el s then instances (occupiedCheck el s)
      else instances (occupiedCheck el s) @ [mountInstance el p s])"
  by (simp add: renderOne_def Let_def)

lemma renderOne_habitatMeta:
  "habitatMeta (snd (renderOne el p s)) =
     (if attachFails el s then habitatMeta (occupiedCheck el s)
      else (habitatMeta (occupiedCheck el s))(eid el \<mapsto>
             \<lparr>m_root = mountRoot el s, m_vnode = mountProps el p s,
              m_unmount = Unmount (eid el) (mountRoot el s)\<rparr>))"
  by (simp add: renderOne_def Let_def)

lemma renderOne_observers:
  "observers (snd (renderOne el p s)) =
     (if \<not> attachFails el s \<and> truthy (lazy (globalOptions s))
      then (observers s)(activations s \<mapsto>
             \<lparr>o_target = eid el,
              o_renderFn = (if hydrate (globalOptions s) then Hydrate else Render),
              o_vnode = mountProps el p s, o_root = mountRoot el s, o_connected = True\<rparr>)
      else observers s)"
  by (simp add: renderOne_def Let_def activate_def)

lemma renderOne_frame:
  "globalOptions (snd (renderOne el p s)) = globalOptions s"
  "activations (snd (renderOne el p s))
     = (if attachFails el s then activations s else Suc (activations s))"
  "propsVar (snd (renderOne el p s)) =
     (if attachFails el s then propsVar s
      else (propsVar s)(activations s := mountProps el p s))"
  by (simp_all add: renderOne_def Let_def)

lemma renderOne_shadowHosts:
  "shadowHosts (snd (renderOne el p s)) =
     (if truthy (shadowRoot (globalOptions s)) then insert (eid el) (shadowHosts s)
      else shadowHosts s)"
  by (auto simp add: renderOne_def Let_def attachRoot_def attachFails_def)

lemma renderOne_trace:
  "trace (snd (renderOne el p s)) =
     trace (cleanHost el (beforeMount el p (occupiedCheck el s))) @
     (if attachFails el s then []
      else (if truthy (shadowRoot (globalOptions s))
            then [AttachShadow (eid el)
                    (initOf (shadowRoot (globalOptions s)) [(''mode'', JString ''open'')])]
            else [])
         @ [if truthy (lazy (globalOptions s))
            then Observe (activations s) (eid el) (initOf (lazy (globalOptions s)) [])
            else activationEvent (if hydrate (globalOptions s) then Hydrate else Render)
                   (mountProps el p s) (mountRoot el s)]
         @ (if onMounted (globalOptions s) then [MountedHook (eid el) (mountProps el p s)]
            else []))"
  by (simp add: renderOne_def Let_def register_trace activate_trace attachRoot_trace)

text \<open>Nothing before the activation phase renders the component.\<close>

lemma prepare_trace:
  "\<exists>evs. trace (cleanHost el (beforeMount el p (occupiedCheck el s))) = trace s @ evs
     \<and> list_all (\<lambda>ev. \<not> isActivation ev) evs"
  by (simp add: cleanHost_trace beforeMount_trace occupiedCheck_trace isActivation_def
      list_all_iff split: option.splits) auto

lemma newEvents_append [simp]: "trace s' = trace s @ evs \<Longrightarrow> newEvents s s' = evs"
  by (simp add: newEvents_def)

subsection \<open>The registry invariant\<close>

lemma registry_ok_cong:
  "instances s' = instances s \<Longrightarrow> habitatMeta s' = habitatMeta s
     \<Longrightarrow> registry_ok s' = registry_ok s"
  by (simp add: registry_ok_def)

lemma registry_ok_habitat: "registry_ok habitat"
  by (simp add: registry_ok_def habitat_def)

lemma registry_ok_unmount:
  assumes "registry_ok s"
  shows "registry_ok (unmount u s)"
proof -
  let ?s1 = "unmount u s"
  let ?e = "u_element u"
  have d: "distinct (map i_element (instances s))"
    and m: "\<forall>i \<in> set (instances s). habitatMeta s (i_element i) \<noteq> None"
    and c: "\<forall>e m. habitatMeta s e = Some m \<longrightarrow> u_element (m_unmount m) = e"
    using assms by (simp_all add: registry_ok_def list_all_iff)
  have d1: "distinct (map i_element (instances ?s1))"
    using d by (simp add: unmount_elements)
  have sub: "set (instances ?s1) \<subseteq> set (instances s)"
    by (simp add: unmount_fields findIndex_splice_subset)
  have "?e \<notin> set (map i_element (instances ?s1))"
    using d by (simp add: unmount_elements)
  then have "\<forall>i \<in> set (instances ?s1). i_element i \<noteq> ?e"
    by (metis image_eqI set_map)
  with m sub have m1: "\<forall>i \<in> set (instances ?s1). habitatMeta ?s1 (i_element i) \<noteq> None"
    by (auto simp: unmount_fields)
  have c1: "\<forall>e m. habitatMeta ?s1 e = Some m \<longrightarrow> u_element (m_unmount m) = e"
    using c by (simp add: unmount_fields)
  from d1 m1 c1 show ?thesis
    by (simp add: registry_ok_def list_all_iff)
qed

lemma registry_ok_update: "registry_ok (update u p s) = registry_ok s"
  by (cases u) (simp add: update_def registry_ok_def Let_def)

lemma registry_ok_occupiedCheck:
  assumes "registry_ok s"
  shows "registry_ok (occupiedCheck el s)" and "habitatMeta (occupiedCheck el s) (eid el) = None"
proof -
  have "registry_ok (logEvent ev s)" for ev
    using assms by (simp add: registry_ok_def)
  then show "registry_ok (occupiedCheck el s)"
    using assms by (simp add: occupiedCheck_def registry_ok_unmount split: option.splits)
  have "\<forall>e m. habitatMeta s e = Some m \<longrightarrow> u_element (m_unmount m) = e"
    using assms by (simp add: registry_ok_def)
  then show "habitatMeta (occupiedCheck el s) (eid el) = None"
    by (simp add: occupiedCheck_def unmount_fields split: option.splits)
qed

lemma registry_ok_renderOne:
  assumes "registry_ok s"
  shows "registry_ok (snd (renderOne el p s))"
proof -
  let ?s1 = "occupiedCheck el s"
  have ok1: "registry_ok ?s1" and none: "habitatMeta ?s1 (eid el) = None"
    using assms by (rule registry_ok_occupiedCheck)+
  from ok1 none have fresh: "eid el \<notin> i_element ` set (instances ?s1)"
    by (auto simp: registry_ok_def list_all_iff)
  show ?thesis
  proof (cases "attachFails el s")
    case True
    then have "registry_ok (snd (renderOne el p s)) = registry_ok ?s1"
      by (intro registry_ok_cong) (simp_all add: renderOne_instances renderOne_habitatMeta)
    with ok1 show ?thesis by simp
  next
    case False
    with ok1 fresh show ?thesis
      by (auto simp: registry_ok_def renderOne_instances renderOne_habitatMeta list_all_iff)
  qed
qed

lemma distinct_filter_one:
  "distinct (map f xs) \<Longrightarrow> x \<in> set xs \<Longrightarrow> length (filter (\<lambda>i. f i = f x) xs) = 1"
proof (induction xs)
  case Nil
  then show ?case by simp
next
  case (Cons a xs)
  show ?case
  proof (cases "f a = f x")
    case True
    with Cons.prems have "\<forall>i \<in> set xs. f i \<noteq> f x"
      by (metis distinct.simps(2) image_eqI list.simps(9) set_map)
    then have "filter (\<lambda>i. f i = f x) xs = []"
      by (simp add: filter_empty_conv)
    with True show ?thesis by simp
  next
    case False
    with Cons show ?thesis by auto
  qed
qed

lemma distinct_filter_le_one:
  "distinct (map f xs) \<Longrightarrow> length (filter (\<lambda>i. f i = e) xs) \<le> 1"
  by (induction xs) (auto simp: filter_empty_conv image_iff)

lemma registry_ok_live: "registry_ok s \<Longrightarrow> liveInstances e s \<le> 1"
  using distinct_filter_le_one [of i_element "instances s" e]
  by (simp add: registry_ok_def liveInstances_def)

subsection \<open>The observer\<close>

lemma disconnect_fields [simp]:
  "trace (disconnect k s) = trace s @ [Disconnect k]"
  "instances (disconnect k s) = instances s"
  "globalOptions (disconnect k s) = globalOptions s"
  "habitatMeta (disconnect k s) = habitatMeta s"
  "propsVar (disconnect k s) = propsVar s"
  "shadowHosts (disconnect k s) = shadowHosts s"
  "activations (disconnect k s) = activations s"
  by (simp_all add: disconnect_def)

lemma disconnect_observers:
  "observers (disconnect k s) =
     (case observers s k of Some ob \<Rightarrow> (observers s)(k \<mapsto> ob\<lparr>o_connected := False\<rparr>)
      | None \<Rightarrow> observers s)"
  by (simp add: disconnect_def)

lemma observerCallback_Nil [simp]: "observerCallback k [] s = s"
  by (simp add: observerCallback_def)

lemma observerCallback_Cons:
  "observerCallback k (b # bs) s =
     observerCallback k bs
       (if b then (case observers s k of
                     Some ob \<Rightarrow> disconnect k (doRender (o_renderFn ob) (o_vnode ob) (o_root ob) s)
                   | None \<Rightarrow> s)
        else s)"
  by (simp add: observerCallback_def)

lemma observerCallback_fields [simp]:
  "instances (observerCallback k entries s) = instances s"
  "globalOptions (observerCallback k entries s) = globalOptions s"
  "habitatMeta (observerCallback k entries s) = habitatMeta s"
  "propsVar (observerCallback k entries s) = propsVar s"
  "shadowHosts (observerCallback k entries s) = shadowHosts s"
  "activations (observerCallback k entries s) = activations s"
  by (induction entries arbitrary: s; simp add: observerCallback_Cons split: option.splits)+

lemma deliver_fields [simp]:
  "instances (deliver k entries s) = instances s"
  "globalOptions (deliver k entries s) = globalOptions s"
  "habitatMeta (deliver k entries s) = habitatMeta s"
  "propsVar (deliver k entries s) = propsVar s"
  "shadowHosts (deliver k entries s) = shadowHosts s"
  "activations (deliver k entries s) = activations s"
  by (simp_all add: deliver_def split: option.splits)

lemma registry_ok_deliver: "registry_ok (deliver k entries s) = registry_ok s"
  by (simp add: registry_ok_def)

lemma registry_ok_options: "registry_ok (s\<lparr>globalOptions := opts\<rparr>) = registry_ok s"
  by (simp add: registry_ok_def)

text \<open>The invariant holds in every state a factory can reach: there is at most one live
  instance per host element at any time.\<close>

lemma reachable_registry_ok: "reachable s \<Longrightarrow> registry_ok s"
proof (induction rule: reachable.induct)
  case start
  show ?case by (rule registry_ok_habitat)
next
  case (configure s opts)
  then show ?case by (simp add: registry_ok_options)
next
  case (mount s el p)
  then show ?case by (simp add: registry_ok_renderOne)
next
  case (unmounted s u)
  then show ?case by (simp add: registry_ok_unmount)
next
  case (updated s up p)
  then show ?case by (simp add: registry_ok_update)
next
  case (delivered s k entries)
  then show ?case by (simp add: registry_ok_deliver)
qed

lemma at_most_one_live_instance: "reachable s \<Longrightarrow> liveInstances e s \<le> 1"
  by (rule registry_ok_live) (rule reachable_registry_ok)

text \<open>The events of a batch: one activation and one disconnect for every intersecting
  entry; the observer is disconnected from the first of them on.\<close>

lemma observerCallback_trace:
  assumes "observers s k = Some ob"
  shows "trace (observerCallback k entries s) = trace s @
           concat (map (\<lambda>b. if b then [activationEvent (o_renderFn ob) (o_vnode ob) (o_root ob),
                                          Disconnect k] else []) entries)
         \<and> (\<exists>ob'. observers (observerCallback k entries s) k = Some ob'
                \<and> o_renderFn ob' = o_renderFn ob \<and> o_vnode ob' = o_vnode ob
                \<and> o_root ob' = o_root ob \<and> o_target ob' = o_target ob
                \<and> o_connected ob' = (o_connected ob \<and> \<not> (True \<in> set entries)))"
  using assms
proof (induction entries arbitrary: s ob)
  case Nil
  then show ?case by simp
next
  case (Cons b bs)
  show ?case
  proof (cases b)
    case False
    with Cons.IH[OF Cons.prems] show ?thesis
      by (simp add: observerCallback_Cons)
  next
    case True
    let ?s1 = "disconnect k (doRender (o_renderFn ob) (o_vnode ob) (o_root ob) s)"
    have ob1: "observers ?s1 k = Some (ob\<lparr>o_connected := False\<rparr>)"
      using Cons.prems by (simp add: disconnect_observers)
    from Cons.IH[OF ob1] True Cons.prems show ?thesis
      by (simp add: observerCallback_Cons cong: if_cong)
  qed
qed

lemma deliver_connected:
  assumes "observers s k = Some ob" and "o_connected ob"
  shows "trace (deliver k entries s) = trace s @
           concat (map (\<lambda>b. if b then [activationEvent (o_renderFn ob) (o_vnode ob) (o_root ob),
                                          Disconnect k] else []) entries)"
    and "\<exists>ob'. observers (deliver k entries s) k = Some ob'
           \<and> o_connected ob' = (\<not> (True \<in> set entries))"
  using assms observerCallback_trace[OF assms(1), of entries]
  by (auto simp: deliver_def)

lemma deliver_disconnected:
  "observers s k = Some ob \<Longrightarrow> \<not> o_connected ob \<Longrightarrow> deliver k entries s = s"
  by (simp add: deliver_def)

lemma activationsOn_batch:
  "activationsOn r (concat (map (\<lambda>b. if b then [activationEvent f v r, Disconnect k] else [])
                              entries))
     = length (filter id entries)"
  by (induction entries)
    (auto simp: activationsOn_def activationEvent_def split: renderFn.splits)

text \<open>A batch renders the component once for every intersecting entry in it.\<close>

lemma deliver_activations:
  assumes "observers s k = Some ob" and "o_connected ob"
  shows "activationsOn (o_root ob) (newEvents s (deliver k entries s))
           = length (filter id entries)"
  using deliver_connected(1)[OF assms, of entries]
  by (simp add: activationsOn_batch)

subsection \<open>Unmounting twice\<close>

lemma unmount_unmount:
  assumes "distinct (map i_element (instances s))"
  shows "unmount u (unmount u s)
           = (unmount u s)\<lparr>trace := trace (unmount u s)
                @ RenderCall (u_root u) None
                  # (if onUnmount (globalOptions s) then [UnmountHook (u_element u)] else [])\<rparr>"
proof -
  let ?s1 = "unmount u s"
  have "u_element u \<notin> set (map i_element (instances ?s1))"
    using assms by (simp add: unmount_elements)
  then have none: "findIndex (\<lambda>i. i_element i = u_element u) (instances ?s1) = None"
    by (intro findIndex_None) simp
  have meta: "(habitatMeta ?s1)(u_element u := None) = habitatMeta ?s1"
    by (simp add: unmount_fields)
  show ?thesis
    unfolding unmount_def[of u ?s1]
    using none meta
    by (cases u) (simp add: logEvent_def Let_def unmount_fields)
qed

text \<open>Facts for evaluating the operations on given states.\<close>

lemmas lifecycle_eval = Let_def renderOne_result renderOne_instances renderOne_habitatMeta
  renderOne_observers renderOne_frame renderOne_shadowHosts renderOne_trace
  attachFails_def occupiedCheck_registry occupiedCheck_trace beforeMount_trace cleanHost_trace
  unmount_fields habitat_def noOptions_def truthy_def
  mountRoot_def mountProps_def collectProps_def getPropsFromAttributes_def
  getPropsFromScripts_def scriptWarnings_def liveInstances_def initOf_def
  activationEvent_def mountInstance_def

subsection \<open>The claims on mounting and unmounting\<close>

text \<open>
  C1. A second call of \<^verbatim>\<open>unmount\<close>, after the first has removed the instance from the
  registry, should be a no-op: no error, no further change of the registry, no second
  call of the \<^verbatim>\<open>onUnmount\<close> hook. The code does not do that: the closure guards only the
  removal from the registry; the empty render, the clearing of the metadata and the
  \<^verbatim>\<open>onUnmount\<close> hook run on every call. Mounted with an \<^verbatim>\<open>onUnmount\<close> hook configured and
  unmounted twice, the widget has its hook called twice.
\<close>

theorem second_unmount_runs_hook_again:
  "let s0 = habitat\<lparr>globalOptions := noOptions\<lparr>onUnmount := True\<rparr>\<rparr>;
       el = \<lparr>eid = 0, attributes = [], propScripts = [], childNodes = []\<rparr>;
       s1 = snd (renderOne el Map.empty s0);
       inst = hd (instances s1);
       s2 = unmount (i_unmount inst) s1;
       s3 = unmount (i_unmount inst) s2
   in instances s1 = [inst]
      \<and> instances s2 = [] \<and> unmountHookCalls 0 (trace s2) = 1
      \<and> instances s3 = [] \<and> unmountHookCalls 0 (trace s3) = 2
      \<and> trace s3 = trace s2 @ [RenderCall (HostElement 0) None, UnmountHook 0]"
  by (simp add: lifecycle_eval unmountHookCalls_def)

text \<open>The same holds of every second call that follows the first at once: it leaves the
  registry and the metadata alone, and repeats the empty render and the hook.\<close>

lemma unmount_again:
  assumes "registry_ok s"
  shows "let s1 = unmount u s; s2 = unmount u s1
         in liveInstances (u_element u) s1 = 0
            \<and> instances s2 = instances s1
            \<and> habitatMeta s2 = habitatMeta s1
            \<and> trace s2 = trace s1 @ RenderCall (u_root u) None
                 # (if onUnmount (globalOptions s) then [UnmountHook (u_element u)] else [])
            \<and> unmountHookCalls (u_element u) (trace s2)
                = unmountHookCalls (u_element u) (trace s1)
                  + (if onUnmount (globalOptions s) then 1 else 0)"
proof -
  let ?s1 = "unmount u s"
  have d: "distinct (map i_element (instances s))"
    using assms by (simp add: registry_ok_def)
  then have "u_element u \<notin> set (map i_element (instances ?s1))"
    by (simp add: unmount_elements)
  then have "\<forall>i \<in> set (instances ?s1). i_element i \<noteq> u_element u"
    by (metis image_eqI set_map)
  then have "filter (\<lambda>i. i_element i = u_element u) (instances ?s1) = []"
    by (simp add: filter_empty_conv)
  then have gone: "liveInstances (u_element u) ?s1 = 0"
    by (simp add: liveInstances_def)
  have again: "unmount u ?s1 = ?s1\<lparr>trace := trace ?s1 @ RenderCall (u_root u) None
      # (if onUnmount (globalOptions s) then [UnmountHook (u_element u)] else [])\<rparr>"
    using d by (rule unmount_unmount)
  show ?thesis
    unfolding Let_def again using gone
    by (simp add: unmountHookCalls_def)
qed

text \<open>When the host has been mounted on again in between, the second call is not even
  harmless: the closure looks the registry entry up by element, so the \<^verbatim>\<open>unmount\<close> of the
  first instance, already run once by the second mount, now removes the second instance
  and clears its metadata.\<close>

lemma stale_unmount_removes_remount:
  "let el = \<lparr>eid = 0, attributes = [], propScripts = [], childNodes = []\<rparr>;
       s1 = snd (renderOne el Map.empty habitat);
       first = hd (instances s1);
       s2 = snd (renderOne el [''n'' \<mapsto> JNumber (Finite 2)] s1);
       second = hd (instances s2);
       s3 = unmount (i_unmount first) s2
   in instances s1 = [first] \<and> instances s2 = [second]
      \<and> i_props first = Map.empty \<and> i_props second = [''n'' \<mapsto> JNumber (Finite 2)]
      \<and> activationsOn (HostElement 0) (trace s2) = 2
      \<and> map_option m_vnode (habitatMeta s2 0) = Some [''n'' \<mapsto> JNumber (Finite 2)]
      \<and> instances s3 = [] \<and> habitatMeta s3 0 = None"
  by (simp add: lifecycle_eval activationsOn_def)

text \<open>
  C3. Unmounting an instance mounted with deferred activation, before its visibility
  predicate has fired, should cancel the pending observation. The code does not do that:
  the observer is a local of the lazy branch of \<^verbatim>\<open>renderOne\<close>, the closure \<^verbatim>\<open>unmount\<close> has no
  hold of it and never disconnects it. Mounted lazily and unmounted at once, the
  component is rendered into its host all the same by the first intersecting entry that
  arrives afterwards, when neither the registry nor the metadata know the instance any
  more.
\<close>

theorem render_after_unmount:
  "let s0 = habitat\<lparr>globalOptions := noOptions\<lparr>lazy := Flag True\<rparr>\<rparr>;
       el = \<lparr>eid = 0, attributes = [], propScripts = [], childNodes = []\<rparr>;
       s1 = snd (renderOne el Map.empty s0);
       inst = hd (instances s1);
       s2 = unmount (i_unmount inst) s1;
       s3 = deliver 0 [True] s2
   in instances s1 = [inst]
      \<and> instances s2 = [] \<and> habitatMeta s2 0 = None
      \<and> map_option o_connected (observers s2 0) = Some True
      \<and> activationsOn (HostElement 0) (trace s2) = 0
      \<and> activationsOn (HostElement 0) (trace s3) = 1
      \<and> trace s3 = trace s2 @ [RenderCall (HostElement 0) (Some Map.empty), Disconnect 0]
      \<and> instances s3 = [] \<and> habitatMeta s3 0 = None"
  by (simp add: lifecycle_eval deliver_def observerCallback_Cons disconnect_observers
      activationsOn_def)

text \<open>The same holds of every lazy mount: after the unmount the registry holds no instance
  on the element, the metadata is gone, the observer is still connected, and the next
  intersecting entry performs the activation render against the instance's root.\<close>

lemma observer_survives_unmount:
  assumes "registry_ok s" and "truthy (lazy (globalOptions s))"
    and "renderOne el p s = (Inr inst, s1)"
  shows "let k = activations s;
             s2 = unmount (i_unmount inst) s1;
             s3 = deliver k [True] s2
         in liveInstances (eid el) s2 = 0 \<and> habitatMeta s2 (eid el) = None
            \<and> (\<exists>ob. observers s2 k = Some ob \<and> o_connected ob \<and> o_target ob = eid el)
            \<and> trace s3 = trace s2 @
                [activationEvent (if hydrate (globalOptions s) then Hydrate else Render)
                   (i_props inst) (u_root (i_unmount inst)),
                 Disconnect k]
            \<and> instances s3 = instances s2 \<and> habitatMeta s3 (eid el) = None"
proof -
  have nf: "\<not> attachFails el s"
    using assms(3) by (metis fst_conv renderOne_result sum.distinct(1))
  have inst: "inst = mountInstance el p s" and s1: "s1 = snd (renderOne el p s)"
    using assms(3) nf by (simp_all add: prod_eq_iff renderOne_result)
  let ?ob = "\<lparr>o_target = eid el,
              o_renderFn = (if hydrate (globalOptions s) then Hydrate else Render),
              o_vnode = mountProps el p s, o_root = mountRoot el s, o_connected = True\<rparr>"
  let ?s2 = "unmount (i_unmount inst) s1"
  have "registry_ok s1"
    using assms(1) by (simp add: s1 registry_ok_renderOne)
  then have "distinct (map i_element (instances s1))"
    by (simp add: registry_ok_def)
  then have "eid el \<notin> set (map i_element (instances ?s2))"
    by (simp add: unmount_elements inst)
  then have "\<forall>i \<in> set (instances ?s2). i_element i \<noteq> eid el"
    by (metis image_eqI set_map)
  then have "filter (\<lambda>i. i_element i = eid el) (instances ?s2) = []"
    by (simp add: filter_empty_conv)
  then have gone: "liveInstances (eid el) ?s2 = 0"
    by (simp add: liveInstances_def)
  have ob: "observers ?s2 (activations s) = Some ?ob"
    using assms(2) nf by (simp add: s1 unmount_fields renderOne_observers)
  have c: "o_connected ?ob" by simp
  have tr: "trace (deliver (activations s) [True] ?s2) = trace ?s2 @
                [activationEvent (if hydrate (globalOptions s) then Hydrate else Render)
                   (i_props inst) (u_root (i_unmount inst)),
                 Disconnect (activations s)]"
    using deliver_connected(1)[OF ob c, of "[True]"] by (simp add: inst)
  have "habitatMeta ?s2 (eid el) = None"
    by (simp add: unmount_fields inst)
  with gone ob tr show ?thesis
    by (simp add: Let_def)
qed

text \<open>
  C4. After \<^verbatim>\<open>update(p)\<close> the instance's \<^verbatim>\<open>props\<close> field should hold the previous merged
  properties overlaid with \<^verbatim>\<open>p\<close>. The code does not do that: \<^verbatim>\<open>update\<close> reassigns the
  variable \<^verbatim>\<open>props\<close> of its activation and renders the merged properties, but the instance
  object was built with the value the variable had at mount time and is never touched
  again. Mounted with the properties \<^verbatim>\<open>{title:'Test', count:0}\<close> and updated with
  \<^verbatim>\<open>{count:5}\<close>, the instance still shows \<^verbatim>\<open>count\<close> 0, while the render got \<^verbatim>\<open>count\<close> 5.
\<close>

theorem update_leaves_instance_props:
  "let el = \<lparr>eid = 0, attributes = [], propScripts = [], childNodes = []\<rparr>;
       s1 = snd (renderOne el [''title'' \<mapsto> JString ''Test'', ''count'' \<mapsto> JNumber (Finite 0)]
                  habitat);
       inst = hd (instances s1);
       s2 = update (i_update inst) [''count'' \<mapsto> JNumber (Finite 5)] s1
   in instances s2 = [inst]
      \<and> i_props inst = [''title'' \<mapsto> JString ''Test'', ''count'' \<mapsto> JNumber (Finite 0)]
      \<and> i_props inst ++ [''count'' \<mapsto> JNumber (Finite 5)]
           = [''title'' \<mapsto> JString ''Test'', ''count'' \<mapsto> JNumber (Finite 5)]
      \<and> i_props (hd (instances s2)) ''count'' = Some (JNumber (Finite 0))
      \<and> last (trace s2) = RenderCall (HostElement 0)
           (Some [''title'' \<mapsto> JString ''Test'', ''count'' \<mapsto> JNumber (Finite 5)])"
  by (simp add: lifecycle_eval update_def)

text \<open>
  C5. Mounting twice onto the same host element should leave exactly one live instance.
  With isolation requested it does not: the second \<^verbatim>\<open>renderOne\<close> unmounts the prior instance
  and then calls \<^verbatim>\<open>attachShadow\<close> on an element that still hosts the shadow tree of the first
  mount, which raises; no instance is left. (Without isolation the claim holds, see
  \<open>remount_one_instance\<close> below.)
\<close>

theorem remount_isolated_raises:
  "let s0 = habitat\<lparr>globalOptions := noOptions\<lparr>shadowRoot := Flag True\<rparr>\<rparr>;
       el = \<lparr>eid = 0, attributes = [], propScripts = [], childNodes = []\<rparr>;
       m1 = renderOne el Map.empty s0;
       m2 = renderOne el Map.empty (snd m1)
   in fst m1 = Inr (mountInstance el Map.empty s0) \<and> liveInstances 0 (snd m1) = 1
      \<and> fst m2 = Inl NotSupportedError \<and> liveInstances 0 (snd m2) = 0
      \<and> instances (snd m2) = []"
  by (simp add: lifecycle_eval)

text \<open>Without isolation: in a state that satisfies the registry invariant, a mount
  leaves one live instance on the element, a second mount onto the same element warns,
  leaves one live instance again, and the registry is as long as after the first.\<close>

lemma remount_one_instance:
  assumes "registry_ok s" and "\<not> truthy (shadowRoot (globalOptions s))"
  shows "let s1 = snd (renderOne el p s); s2 = snd (renderOne el q s1)
         in liveInstances (eid el) s1 = 1 \<and> liveInstances (eid el) s2 = 1
            \<and> length (instances s2) = length (instances s1)
            \<and> ConsoleWarn ''[preact-habitat] Element already has a mounted widget''
                 \<in> set (newEvents s1 s2)"
proof -
  let ?s1 = "snd (renderOne el p s)"
  let ?s2 = "snd (renderOne el q ?s1)"
  let ?i1 = "mountInstance el p s"
  let ?i2 = "mountInstance el q ?s1"
  have nf: "\<not> attachFails el s" and nf1: "\<not> attachFails el ?s1"
    using assms(2) by (simp_all add: attachFails_def renderOne_frame)
  have ok1: "registry_ok ?s1" and ok2: "registry_ok ?s2"
    using assms(1) by (simp_all add: registry_ok_renderOne)
  have in1: "?i1 \<in> set (instances ?s1)" and in2: "?i2 \<in> set (instances ?s2)"
    using nf nf1 by (simp_all add: renderOne_instances)
  have l1: "liveInstances (eid el) ?s1 = 1"
    using distinct_filter_one[of i_element "instances ?s1" ?i1] ok1 in1
    by (simp add: registry_ok_def liveInstances_def)
  have l2: "liveInstances (eid el) ?s2 = 1"
    using distinct_filter_one[of i_element "instances ?s2" ?i2] ok2 in2
    by (simp add: registry_ok_def liveInstances_def)
  have meta1: "habitatMeta ?s1 (eid el)
      = Some \<lparr>m_root = mountRoot el s, m_vnode = mountProps el p s,
              m_unmount = Unmount (eid el) (mountRoot el s)\<rparr>"
    using nf by (simp add: renderOne_habitatMeta)
  have "map i_element (instances (occupiedCheck el ?s1))
      = remove1 (eid el) (map i_element (instances ?s1))"
    using meta1 by (simp add: occupiedCheck_registry findIndex_splice_map[symmetric])
  moreover have "eid el \<in> set (map i_element (instances ?s1))"
    using in1 by (metis image_eqI mountInstance_fields(1) set_map)
  ultimately have "Suc (length (instances (occupiedCheck el ?s1))) = length (instances ?s1)"
    by (metis length_map length_remove1 One_nat_def Suc_pred length_pos_if_in_set)
  then have len: "length (instances ?s2) = length (instances ?s1)"
    using nf1 by (simp add: renderOne_instances)
  obtain evs where "trace ?s2 = trace ?s1
      @ ConsoleWarn ''[preact-habitat] Element already has a mounted widget'' # evs"
    using meta1 by (simp add: renderOne_trace cleanHost_trace beforeMount_trace occupiedCheck_trace)
  then have "ConsoleWarn ''[preact-habitat] Element already has a mounted widget''
      \<in> set (newEvents ?s1 ?s2)"
    by (simp add: newEvents_def)
  with l1 l2 len show ?thesis
    by (simp add: Let_def)
qed

text \<open>
  C8. Under deferred activation the activation render should occur exactly once. The
  observer's callback walks the whole batch of entries it is given and calls \<^verbatim>\<open>doRender\<close>
  (and \<^verbatim>\<open>disconnect\<close>) for every intersecting entry, so a first batch with two intersecting
  entries renders the component twice. (A batch renders once per intersecting entry, so
  once when the host is reported once, and nothing is delivered after the disconnect:
  \<open>deliver_activations\<close>, \<open>deliver_disconnected\<close>.)
\<close>

theorem batch_renders_twice:
  "let s0 = habitat\<lparr>globalOptions := noOptions\<lparr>lazy := Flag True\<rparr>\<rparr>;
       el = \<lparr>eid = 0, attributes = [], propScripts = [], childNodes = []\<rparr>;
       s1 = snd (renderOne el Map.empty s0);
       s2 = deliver 0 [True, True] s1
   in activationsOn (HostElement 0) (trace s1) = 0
      \<and> trace s2 = trace s1 @ [RenderCall (HostElement 0) (Some Map.empty), Disconnect 0,
                                RenderCall (HostElement 0) (Some Map.empty), Disconnect 0]
      \<and> activationsOn (HostElement 0) (trace s2) = 2"
  by (simp add: lifecycle_eval deliver_def observerCallback_Cons disconnect_observers
      activationsOn_def)

text \<open>
  C10. With deferred activation configured, a mount that the platform accepts (the
  element does not already host a shadow tree that a requested isolation would attach
  again) completes its bookkeeping at once: it returns an instance, that instance is
  pushed on the registry, the host metadata is attached, the \<^verbatim>\<open>onMounted\<close> hook (when
  configured) is the last thing called, the observer is connected and waiting, and none of
  the events of the mount is a render or hydrate of the component.
\<close>

theorem lazy_mount_bookkeeping:
  assumes "truthy (lazy (globalOptions s))" and "\<not> attachFails el s"
  shows "\<exists>inst s'. renderOne el p s = (Inr inst, s')
           \<and> instances s' = instances (occupiedCheck el s) @ [inst]
           \<and> habitatMeta s' (eid el)
               = Some \<lparr>m_root = mountRoot el s, m_vnode = i_props inst,
                       m_unmount = i_unmount inst\<rparr>
           \<and> (onMounted (globalOptions s) \<longrightarrow>
                 last (trace s') = MountedHook (eid el) (i_props inst))
           \<and> list_all (\<lambda>ev. \<not> isActivation ev) (newEvents s s')
           \<and> (\<exists>ob. observers s' (activations s) = Some ob \<and> o_connected ob
                 \<and> o_target ob = eid el \<and> o_root ob = mountRoot el s
                 \<and> o_vnode ob = i_props inst)"
proof -
  let ?r = "renderOne el p s"
  obtain evs
    where evs: "trace (cleanHost el (beforeMount el p (occupiedCheck el s))) = trace s @ evs"
      and quiet: "list_all (\<lambda>ev. \<not> isActivation ev) evs"
    using prepare_trace by blast
  let ?tail = "(if truthy (shadowRoot (globalOptions s))
            then [AttachShadow (eid el)
                    (initOf (shadowRoot (globalOptions s)) [(''mode'', JString ''open'')])]
            else [])
         @ [Observe (activations s) (eid el) (initOf (lazy (globalOptions s)) [])]
         @ (if onMounted (globalOptions s) then [MountedHook (eid el) (mountProps el p s)]
            else [])"
  have tr: "trace (snd ?r) = trace s @ evs @ ?tail"
    using assms evs by (simp add: renderOne_trace)
  have "list_all (\<lambda>ev. \<not> isActivation ev) ?tail"
    by (simp add: isActivation_def)
  with quiet tr have a: "list_all (\<lambda>ev. \<not> isActivation ev) (newEvents s (snd ?r))"
    by (simp add: newEvents_def)
  have b: "onMounted (globalOptions s) \<longrightarrow>
      last (trace (snd ?r)) = MountedHook (eid el) (mountProps el p s)"
    using tr by simp
  have "?r = (Inr (mountInstance el p s), snd ?r)"
    using assms(2) by (simp add: prod_eq_iff renderOne_result)
  moreover have "instances (snd ?r) = instances (occupiedCheck el s) @ [mountInstance el p s]"
    using assms(2) by (simp add: renderOne_instances)
  moreover have "habitatMeta (snd ?r) (eid el)
      = Some \<lparr>m_root = mountRoot el s, m_vnode = mountProps el p s,
              m_unmount = Unmount (eid el) (mountRoot el s)\<rparr>"
    using assms(2) by (simp add: renderOne_habitatMeta)
  moreover have "\<exists>ob. observers (snd ?r) (activations s) = Some ob \<and> o_connected ob
                 \<and> o_target ob = eid el \<and> o_root ob = mountRoot el s
                 \<and> o_vnode ob = mountProps el p s"
    using assms by (simp add: renderOne_observers)
  ultimately show ?thesis
    using a b by (intro exI[of _ "mountInstance el p s"] exI[of _ "snd ?r"]) simp
qed

theorem lazy_mount_bookkeeping_witness:
  "let s0 = habitat\<lparr>globalOptions := noOptions\<lparr>lazy := Flag True, onMounted := True\<rparr>\<rparr>;
       el = \<lparr>eid = 0, attributes = [], propScripts = [], childNodes = []\<rparr>
   in truthy (lazy (globalOptions s0)) \<and> \<not> attachFails el s0
      \<and> (\<exists>inst s'. renderOne el Map.empty s0 = (Inr inst, s')
            \<and> instances s' = [inst]
            \<and> last (trace s') = MountedHook 0 (i_props inst)
            \<and> list_all (\<lambda>ev. \<not> isActivation ev) (trace s'))"
proof -
  let ?s0 = "habitat\<lparr>globalOptions := noOptions\<lparr>lazy := Flag True, onMounted := True\<rparr>\<rparr>"
  let ?el = "\<lparr>eid = 0, attributes = [], propScripts = [], childNodes = []\<rparr>"
  have lz: "truthy (lazy (globalOptions ?s0))"
    by (simp add: truthy_def)
  have nf: "\<not> attachFails ?el ?s0"
    by (simp add: attachFails_def habitat_def noOptions_def truthy_def)
  from lazy_mount_bookkeeping [OF lz nf, of Map.empty]
  obtain inst s' where "renderOne ?el Map.empty ?s0 = (Inr inst, s')"
    and "instances s' = instances (occupiedCheck ?el ?s0) @ [inst]"
    and "onMounted (globalOptions ?s0) \<longrightarrow> last (trace s') = MountedHook (eid ?el) (i_props inst)"
    and "list_all (\<lambda>ev. \<not> isActivation ev) (newEvents ?s0 s')"
    by blast
  then have "renderOne ?el Map.empty ?s0 = (Inr inst, s') \<and> instances s' = [inst]
      \<and> last (trace s') = MountedHook 0 (i_props inst)
      \<and> list_all (\<lambda>ev. \<not> isActivation ev) (trace s')"
    by (simp add: occupiedCheck_registry newEvents_def habitat_def noOptions_def)
  with lz nf show ?thesis
    unfolding Let_def by blast
qed

section \<open>EventBus: proofs\<close>

lemma on_other [simp]: "ev' \<noteq> ev \<Longrightarrow> on ev' cb b ev = b ev"
  by (simp add: on_def Let_def)

lemma off_other [simp]: "ev' \<noteq> ev \<Longrightarrow> off ev' cb b ev = b ev"
  by (simp add: off_def split: option.splits)


lemma invoked_append [simp]: "invoked (xs @ ys) = invoked xs @ invoked ys"
  by (induction xs) (simp_all add: invoked_def map_filter_simps split: option.splits)

lemma invoked_simps [simp]:
  "invoked [] = []"
  "invoked (Called cb args # xs) = cb # invoked xs"
  "invoked (ConsoleError ev # xs) = invoked xs"
  by (simp_all add: invoked_def map_filter_simps)



lemma later_refl [simp]: "later slots slots"
  by (simp add: later_def)

















lemma invoked_raised [simp]: "invoked (if raised then [ConsoleError ev] else []) = []"
  by simp









end
